theory Spec2Isabelle
  imports Main "HOL-Library.AList"
begin

section \<open>The instance-pool scheduler of advanced\_docker\_scheduler.py\<close>

text \<open>
  The scheduler keeps a registry of sandbox instances (a Python dict from instance id to a
  mutable \<open>DockerInstance\<close> object), a FIFO queue of ready ids and four counters. The
  registry is an association list in insertion order, as a Python dict is; the queue is a
  list whose head is the next id to be handed out. Times (\<open>datetime.now()\<close>) are
  integers supplied by the caller of each operation. The outcome of every awaited call to
  the provisioner or to the instance's HTTP endpoint is a parameter of the operation that
  resumes after it.
\<close>

subsection \<open>Data model\<close>

datatype InstanceStatus = CREATING | TESTING | READY | ALLOCATED | DESTROYING | FAILED

record DockerInstance =
  instance_id :: string
  env_id :: string
  endpoint :: string
  status :: InstanceStatus
  created_at :: int
  allocated_at :: "int option"
  client_id :: "string option"
  last_health_check :: "int option"
  error_message :: string

record Stats =
  total_created :: nat
  total_allocated :: nat
  total_destroyed :: nat
  total_failed :: nat
  start_time :: int

record DockerScheduler =
  pool_size :: int
  max_pool_size :: int
  api_test_timeout :: int
  health_check_interval :: int
  instances :: "(string \<times> DockerInstance) list"
  ready_queue :: "string list"
  running :: bool
  stats :: Stats

text \<open>
  \<open>__init__\<close> followed by \<open>start()\<close>: an empty registry, zero counters, a fresh empty
  queue and the running flag set. (Before \<open>start()\<close> the queue attribute is \<open>None\<close>;
  every operation below runs on a started scheduler.)
\<close>

definition init_scheduler :: "int \<Rightarrow> int \<Rightarrow> int \<Rightarrow> int \<Rightarrow> int \<Rightarrow> DockerScheduler" where
  "init_scheduler ps mx tmo hci now =
     \<lparr>pool_size = ps, max_pool_size = mx, api_test_timeout = tmo,
      health_check_interval = hci, instances = [], ready_queue = [], running = True,
      stats = \<lparr>total_created = 0, total_allocated = 0, total_destroyed = 0,
               total_failed = 0, start_time = now\<rparr>\<rparr>"

subsection \<open>Registry access\<close>

text \<open>
  \<open>self.instances.get(i)\<close> is \<open>map_of\<close>; \<open>self.instances[i] = v\<close> is \<open>AList.update\<close>
  (replace in place, or append); \<open>del self.instances[i]\<close> is \<open>AList.delete\<close>. An
  assignment to a field of the object stored under \<open>i\<close> is \<open>AList.map_entry\<close>.
\<close>

definition set_status :: "string \<Rightarrow> InstanceStatus \<Rightarrow> DockerScheduler \<Rightarrow> DockerScheduler" where
  "set_status i st s = s\<lparr>instances := AList.map_entry i (\<lambda>r. r\<lparr>status := st\<rparr>) (instances s)\<rparr>"

definition status_of :: "DockerScheduler \<Rightarrow> string \<Rightarrow> InstanceStatus option" where
  "status_of s i = map_option status (map_of (instances s) i)"

subsection \<open>\<open>_destroy_instance\<close>\<close>

text \<open>
  The coroutine has one suspension point, the awaited \<open>delete_env\<close>, reached only when the
  record has a non-empty \<open>env_id\<close>. \<open>destroy_begin\<close> is the code before it (lookup, early
  return, status write), \<open>destroy_finally\<close> the \<open>finally\<close> clause, which runs whether the
  delete returned or raised.
\<close>

datatype destroy_next = Returned | CallDelete string | ToFinally

definition destroy_begin :: "string \<Rightarrow> DockerScheduler \<Rightarrow> DockerScheduler \<times> destroy_next" where
  "destroy_begin i s =
     (case map_of (instances s) i of
        None \<Rightarrow> (s, Returned)
      | Some inst \<Rightarrow>
          (set_status i DESTROYING s,
           if env_id inst \<noteq> [] then CallDelete (env_id inst) else ToFinally))"

definition destroy_finally :: "string \<Rightarrow> DockerScheduler \<Rightarrow> DockerScheduler" where
  "destroy_finally i s =
     (if i \<in> fst ` set (instances s)
      then s\<lparr>instances := AList.delete i (instances s),
             stats := (stats s)\<lparr>total_destroyed := total_destroyed (stats s) + 1\<rparr>\<rparr>
      else s)"

datatype delete_outcome = DeleteReturned | DeleteRaised

text \<open>
  One call of \<open>_destroy_instance\<close> run to completion with nothing interleaved, for an
  awaited delete that has come back, by returning or by raising.
\<close>

definition destroy_instance :: "string \<Rightarrow> delete_outcome \<Rightarrow> DockerScheduler \<Rightarrow> DockerScheduler" where
  "destroy_instance i out s =
     (case destroy_begin i s of
        (s', Returned) \<Rightarrow> s'
      | (s', CallDelete e) \<Rightarrow>
          (case out of DeleteReturned \<Rightarrow> destroy_finally i s'
                     | DeleteRaised \<Rightarrow> destroy_finally i s')
      | (s', ToFinally) \<Rightarrow> destroy_finally i s')"

subsection \<open>The provisioner's \<open>delete_env\<close>\<close>

text \<open>
  \<open>delete_outcome\<close> above has the two ways in which the awaited delete comes back to
  \<open>_destroy_instance\<close>. There is a third possibility: it does not come back.
  \<open>TioneEnvManager.delete_env\<close> (docker\_client\_tione.py) is a \<open>while True\<close> loop. Each
  pass calls the provisioner's delete, waits, and asks for the environment's description.
  When both calls answer, the environment is still there and the loop goes round again.
  A \<open>TencentCloudSDKException\<close> saying "record not found request" is counted, and the third
  one ends the loop; any other \<open>TencentCloudSDKException\<close> is retried; any other
  exception ends the loop at once. No \<open>Exception\<close> leaves \<open>delete_env\<close>. A \<open>round\<close> is what
  one pass meets, the function \<open>nat \<Rightarrow> round\<close> what the provisioner answers pass after
  pass; \<open>None\<close> is the loop that never ends.
\<close>

datatype round = StillThere | NotFound | ApiError | Unexpected

partial_function (option) delete_env :: "(nat \<Rightarrow> round) \<Rightarrow> nat \<Rightarrow> nat \<Rightarrow> unit option" where
  "delete_env rounds k num_time_not_found =
     (case rounds k of
        StillThere \<Rightarrow> delete_env rounds (Suc k) num_time_not_found
      | NotFound \<Rightarrow>
          if num_time_not_found + 1 \<ge> 3 then Some ()
          else delete_env rounds (Suc k) (num_time_not_found + 1)
      | ApiError \<Rightarrow> delete_env rounds (Suc k) num_time_not_found
      | Unexpected \<Rightarrow> Some ())"

text \<open>
  What \<open>_destroy_instance\<close> meets at its await: the \<open>TioneEnvManager\<close> constructor, which
  raises on an unknown resource group (inside the \<open>try\<close>, so \<open>except Exception\<close> catches
  it), and then \<open>delete_env(instance.env_id)\<close>. The provisioner's answers depend on the
  environment that is asked for.
\<close>

record provisioner =
  manager_ok :: bool
  rounds :: "string \<Rightarrow> nat \<Rightarrow> round"

definition await_delete :: "provisioner \<Rightarrow> string \<Rightarrow> delete_outcome option" where
  "await_delete p e =
     (if manager_ok p
      then map_option (\<lambda>_. DeleteReturned) (delete_env (rounds p e) 0 0)
      else Some DeleteRaised)"

text \<open>
  \<open>_destroy_instance\<close> against a provisioner: finished, or suspended for good at the
  await with the scheduler as the first half left it.
\<close>

datatype destroy_run = Finished DockerScheduler | Suspended DockerScheduler

definition destroy_instance_on :: "string \<Rightarrow> provisioner \<Rightarrow> DockerScheduler \<Rightarrow> destroy_run" where
  "destroy_instance_on i p s =
     (case destroy_begin i s of
        (s', Returned) \<Rightarrow> Finished s'
      | (s', ToFinally) \<Rightarrow> Finished (destroy_finally i s')
      | (s', CallDelete e) \<Rightarrow>
          (case await_delete p e of
             None \<Rightarrow> Suspended s'
           | Some out \<Rightarrow> Finished (destroy_instance i out s)))"

subsection \<open>\<open>release_instance\<close>\<close>

text \<open>
  The client argument is \<open>string option\<close>: the annotation says \<open>str\<close>, but the ownership
  test is Python's \<open>!=\<close> against an \<open>Optional[str]\<close> field, and \<open>None\<close> is a value a caller
  can pass.
\<close>

definition release_instance ::
  "string \<Rightarrow> string option \<Rightarrow> delete_outcome \<Rightarrow> DockerScheduler \<Rightarrow> DockerScheduler \<times> bool" where
  "release_instance i c out s =
     (case map_of (instances s) i of
        None \<Rightarrow> (s, False)
      | Some inst \<Rightarrow>
          if client_id inst \<noteq> c then (s, False)
          else (destroy_instance i out s, True))"

subsection \<open>\<open>_create_instance\<close>\<close>

text \<open>
  The coroutine inserts a CREATING record under a new id, awaits \<open>create_env\<close>, writes
  the provisioner's answer and TESTING, awaits the readiness probe, and on success writes
  READY and enqueues the id. Any exception lands in the \<open>except\<close> branch: FAILED, the
  message, \<open>total_failed\<close>, then \<open>_destroy_instance\<close>. Each definition is the code between
  two suspension points. The assignments after an \<open>await\<close> go to the object the coroutine
  holds; when that object is no longer in the registry nobody else can read it, and
  \<open>map_entry\<close> leaves the registry as it is.
\<close>

definition new_instance :: "string \<Rightarrow> int \<Rightarrow> DockerInstance" where
  "new_instance i now =
     \<lparr>instance_id = i, env_id = [], endpoint = [], status = CREATING, created_at = now,
      allocated_at = None, client_id = None, last_health_check = None,
      error_message = []\<rparr>"

definition create_instance_begin :: "string \<Rightarrow> int \<Rightarrow> DockerScheduler \<Rightarrow> DockerScheduler" where
  "create_instance_begin i now s =
     s\<lparr>instances := AList.update i (new_instance i now) (instances s)\<rparr>"

text \<open>What \<open>await manager.create_env()\<close> gave: a dict read with \<open>.get\<close>, or an exception.\<close>

datatype create_outcome = EnvResult "string option" "string option" | EnvRaised string

definition truthy :: "string option \<Rightarrow> bool" where
  "truthy x = (case x of None \<Rightarrow> False | Some v \<Rightarrow> v \<noteq> [])"

definition create_fail :: "string \<Rightarrow> string \<Rightarrow> DockerScheduler \<Rightarrow> DockerScheduler" where
  "create_fail i msg s =
     s\<lparr>instances :=
         AList.map_entry i (\<lambda>r. r\<lparr>status := FAILED, error_message := msg\<rparr>) (instances s),
       stats := (stats s)\<lparr>total_failed := total_failed (stats s) + 1\<rparr>\<rparr>"

text \<open>The boolean says whether the coroutine goes on to the readiness probe.\<close>

definition create_env_returned ::
  "string \<Rightarrow> create_outcome \<Rightarrow> DockerScheduler \<Rightarrow> DockerScheduler \<times> bool" where
  "create_env_returned i res s =
     (case res of
        EnvRaised msg \<Rightarrow> (create_fail i msg s, False)
      | EnvResult e p \<Rightarrow>
          if \<not> truthy e \<or> \<not> truthy p
          then (create_fail i ''incomplete creation result'' s, False)
          else (s\<lparr>instances :=
                    AList.map_entry i
                      (\<lambda>r. r\<lparr>env_id := the e, endpoint := the p, status := TESTING\<rparr>)
                      (instances s),
                  stats := (stats s)\<lparr>total_created := total_created (stats s) + 1\<rparr>\<rparr>,
                True))"

text \<open>The boolean is the value of \<open>await self._test_instance_api(instance)\<close>.\<close>

definition test_api_returned ::
  "string \<Rightarrow> bool \<Rightarrow> int \<Rightarrow> DockerScheduler \<Rightarrow> DockerScheduler \<times> bool" where
  "test_api_returned i ok now s =
     (if ok
      then (s\<lparr>instances :=
                AList.map_entry i
                  (\<lambda>r. r\<lparr>status := READY, last_health_check := Some now\<rparr>) (instances s),
              ready_queue := ready_queue s @ [i]\<rparr>, True)
      else (create_fail i ''API test failed'' s, False))"

subsection \<open>\<open>allocate_instance\<close>\<close>

text \<open>
  The awaited \<open>ready_queue.get()\<close> under the 3 second timeout either yields an id, raises
  one of the two timeout errors, or raises something else; both \<open>except\<close> clauses return
  \<open>None\<close>. \<open>allocate_dequeued\<close> is the code that runs once an id has been taken out of the
  queue. The dict built by \<open>to_dict\<close> is the record itself.
\<close>

datatype awaited = Got string | TimedOut | Raised

definition requeue :: "string \<Rightarrow> DockerScheduler \<Rightarrow> DockerScheduler" where
  "requeue i s = s\<lparr>ready_queue := ready_queue s @ [i]\<rparr>"

definition allocate_dequeued ::
  "string \<Rightarrow> string \<Rightarrow> int \<Rightarrow> DockerScheduler \<Rightarrow> DockerScheduler \<times> DockerInstance option" where
  "allocate_dequeued i c now s =
     (case map_of (instances s) i of
        None \<Rightarrow> (requeue i s, None)
      | Some inst \<Rightarrow>
          if status inst \<noteq> READY then (requeue i s, None)
          else
            (s\<lparr>instances :=
                 AList.map_entry i
                   (\<lambda>r. r\<lparr>status := ALLOCATED, allocated_at := Some now, client_id := Some c\<rparr>)
                   (instances s),
               stats := (stats s)\<lparr>total_allocated := total_allocated (stats s) + 1\<rparr>\<rparr>,
             Some (inst\<lparr>status := ALLOCATED, allocated_at := Some now, client_id := Some c\<rparr>)))"

definition allocate_resumed ::
  "awaited \<Rightarrow> string \<Rightarrow> int \<Rightarrow> DockerScheduler \<Rightarrow> DockerScheduler \<times> DockerInstance option" where
  "allocate_resumed a c now s =
     (case a of
        Got i \<Rightarrow> allocate_dequeued i c now s
      | TimedOut \<Rightarrow> (s, None)
      | Raised \<Rightarrow> (s, None))"

text \<open>
  The wait with nothing interleaved: an id is there or the timeout expires.
\<close>

definition await_get :: "DockerScheduler \<Rightarrow> DockerScheduler \<times> awaited" where
  "await_get s =
     (case ready_queue s of
        [] \<Rightarrow> (s, TimedOut)
      | i # q \<Rightarrow> (s\<lparr>ready_queue := q\<rparr>, Got i))"

definition allocate_instance ::
  "string \<Rightarrow> int \<Rightarrow> DockerScheduler \<Rightarrow> DockerScheduler \<times> DockerInstance option" where
  "allocate_instance c now s =
     (case await_get s of (s1, a) \<Rightarrow> allocate_resumed a c now s1)"

subsection \<open>\<open>allocate_instance\<close> from either event loop\<close>

text \<open>
  \<open>allocate_instance\<close> has two ways of waiting for an id. A caller on the scheduler's
  event loop (or on any loop when the scheduler was never started and \<open>self.loop\<close> is
  \<open>None\<close>) awaits \<open>asyncio.wait_for(self.ready_queue.get(), 3)\<close>, which cancels the get
  when the timeout expires: that is \<open>await_get\<close> above. A caller on another loop submits
  the get to the scheduler's loop with \<open>run_coroutine_threadsafe\<close> and blocks on
  \<open>future.result(3)\<close>. When the scheduler's loop is closed the submission raises. When the
  loop does not run the get within the timeout, or runs it on an empty queue,
  \<open>future.result\<close> raises its timeout error and nothing cancels the get: it stays
  submitted, and \<open>pending_gets\<close> counts the gets that nobody waits for any more. Such a get
  takes the id at the head of the queue once there is one, and its result is never read
  (\<open>orphan_get_runs\<close>). The requeueing \<open>put\<close> of the other loop's branch is submitted the
  same way; it is taken as done, the queue being unbounded.
\<close>

datatype caller = SchedulerLoop | OtherLoop

datatype loop_state = Serving | Stalled | Closed

record bridged =
  core :: DockerScheduler
  pending_gets :: nat

definition get_from :: "caller \<Rightarrow> loop_state \<Rightarrow> bridged \<Rightarrow> bridged \<times> awaited" where
  "get_from w l b =
     (case w of
        SchedulerLoop \<Rightarrow> (case await_get (core b) of (s1, a) \<Rightarrow> (b\<lparr>core := s1\<rparr>, a))
      | OtherLoop \<Rightarrow>
          (case l of
             Closed \<Rightarrow> (b, Raised)
           | Stalled \<Rightarrow> (b\<lparr>pending_gets := pending_gets b + 1\<rparr>, TimedOut)
           | Serving \<Rightarrow>
               (case ready_queue (core b) of
                  [] \<Rightarrow> (b\<lparr>pending_gets := pending_gets b + 1\<rparr>, TimedOut)
                | i # q \<Rightarrow> (b\<lparr>core := (core b)\<lparr>ready_queue := q\<rparr>\<rparr>, Got i))))"

definition allocate_instance_from ::
  "caller \<Rightarrow> loop_state \<Rightarrow> string \<Rightarrow> int \<Rightarrow> bridged \<Rightarrow> bridged \<times> DockerInstance option" where
  "allocate_instance_from w l c now b =
     (case get_from w l b of
        (b1, a) \<Rightarrow>
          (case allocate_resumed a c now (core b1) of (s', r) \<Rightarrow> (b1\<lparr>core := s'\<rparr>, r)))"

definition orphan_get_runs :: "bridged \<Rightarrow> bridged" where
  "orphan_get_runs b =
     (case ready_queue (core b) of
        [] \<Rightarrow> b
      | i # q \<Rightarrow>
          if pending_gets b > 0
          then b\<lparr>core := (core b)\<lparr>ready_queue := q\<rparr>, pending_gets := pending_gets b - 1\<rparr>
          else b)"

subsection \<open>Health handling\<close>

text \<open>
  \<open>_handle_unhealthy_instance\<close> empties the ready queue into a temporary queue, skipping
  the first occurrence of the id, puts everything back, and destroys the instance. Neither
  loop suspends: the queue is unbounded and \<open>get\<close> is only called when it is non-empty.
\<close>

fun drain :: "string \<Rightarrow> string list \<Rightarrow> bool \<Rightarrow> string list \<Rightarrow> string list \<times> bool" where
  "drain i [] removed temp = (temp, removed)"
| "drain i (item # q) removed temp =
     (if item = i \<and> \<not> removed then drain i q True temp
      else drain i q removed (temp @ [item]))"

fun refill :: "string list \<Rightarrow> string list \<Rightarrow> string list" where
  "refill [] q = q"
| "refill (x # temp) q = refill temp (q @ [x])"

definition eject :: "string \<Rightarrow> DockerScheduler \<Rightarrow> DockerScheduler" where
  "eject i s = s\<lparr>ready_queue := refill (fst (drain i (ready_queue s) False [])) []\<rparr>"

definition handle_unhealthy_instance ::
  "string \<Rightarrow> delete_outcome \<Rightarrow> DockerScheduler \<Rightarrow> DockerScheduler" where
  "handle_unhealthy_instance i out s = destroy_instance i out (eject i s)"

datatype probe = ProbeStatus int | ProbeRaised

definition probe_ok :: "probe \<Rightarrow> bool" where
  "probe_ok p = (case p of ProbeStatus code \<Rightarrow> code \<in> {200, 201, 202} | ProbeRaised \<Rightarrow> False)"

text \<open>\<open>_check_instance_health\<close> from the point where the HTTP request has come back.\<close>

definition check_instance_health_returned ::
  "string \<Rightarrow> probe \<Rightarrow> int \<Rightarrow> delete_outcome \<Rightarrow> DockerScheduler \<Rightarrow> DockerScheduler" where
  "check_instance_health_returned i p now out s =
     (if probe_ok p
      then s\<lparr>instances :=
               AList.map_entry i (\<lambda>r. r\<lparr>last_health_check := Some now\<rparr>) (instances s)\<rparr>
      else handle_unhealthy_instance i out s)"

subsection \<open>One cycle of \<open>_pool_manager\<close>\<close>

definition count_status :: "InstanceStatus \<Rightarrow> DockerScheduler \<Rightarrow> int" where
  "count_status st s = int (length (filter (\<lambda>kv. status (snd kv) = st) (instances s)))"

definition ready_count :: "DockerScheduler \<Rightarrow> int" where
  "ready_count s = int (length (ready_queue s))"

definition creating_count :: "DockerScheduler \<Rightarrow> int" where
  "creating_count s = count_status CREATING s"

definition testing_count :: "DockerScheduler \<Rightarrow> int" where
  "testing_count s = count_status TESTING s"

definition total_active :: "DockerScheduler \<Rightarrow> int" where
  "total_active s = ready_count s + creating_count s + testing_count s"

definition total_instances :: "DockerScheduler \<Rightarrow> int" where
  "total_instances s = int (length (instances s))"

definition needed :: "DockerScheduler \<Rightarrow> int" where
  "needed s = pool_size s - total_active s"

definition can_create :: "DockerScheduler \<Rightarrow> int" where
  "can_create s = max_pool_size s - total_instances s"

definition concurrent_creation_limit :: int where
  "concurrent_creation_limit = 128"

definition ongoing_creations :: "DockerScheduler \<Rightarrow> int" where
  "ongoing_creations s = creating_count s + testing_count s"

definition creation_slots_available :: "DockerScheduler \<Rightarrow> int" where
  "creation_slots_available s = max 0 (concurrent_creation_limit - ongoing_creations s)"

definition actual_needed :: "DockerScheduler \<Rightarrow> int" where
  "actual_needed s = min (min (needed s) (can_create s)) (creation_slots_available s)"

text \<open>
  The number of \<open>_create_instance()\<close> coroutines the cycle builds and hands to
  \<open>asyncio.gather\<close>: \<open>range(actual_needed)\<close> under the guard \<open>actual_needed > 0\<close>.
\<close>

definition launched :: "DockerScheduler \<Rightarrow> nat" where
  "launched s = (if actual_needed s > 0 then nat (actual_needed s) else 0)"

subsection \<open>\<open>shutdown\<close>\<close>

text \<open>
  The running flag is cleared, the background loops are cancelled, and every id in the
  registry is destroyed. This is the run with nothing interleaved: the destroy calls one
  after another, each with its own delete outcome.
\<close>

definition shutdown :: "(string \<Rightarrow> delete_outcome) \<Rightarrow> DockerScheduler \<Rightarrow> DockerScheduler" where
  "shutdown out s =
     foldl (\<lambda>s' i. destroy_instance i (out i) s') (s\<lparr>running := False\<rparr>) (map fst (instances s))"

subsection \<open>A sample scheduler\<close>

definition sample_instance :: "string \<Rightarrow> string \<Rightarrow> InstanceStatus \<Rightarrow> string option \<Rightarrow> DockerInstance" where
  "sample_instance i e st c =
     (new_instance i 10)\<lparr>env_id := e, endpoint := (if e = [] then [] else ''10.0.0.1:6060''),
        status := st, client_id := c,
        allocated_at := (if c = None then None else Some 30),
        last_health_check := (if e = [] then None else Some 20)\<rparr>"

definition sample_scheduler :: DockerScheduler where
  "sample_scheduler =
     (init_scheduler 2 4 900 1200 0)
       \<lparr>instances := [(''a'', sample_instance ''a'' ''env-a'' ALLOCATED (Some ''w1'')),
                     (''b'', sample_instance ''b'' ''env-b'' READY None),
                     (''c'', sample_instance ''c'' [] CREATING None)],
        ready_queue := [''b'']\<rparr>"

definition all_deleted :: "string \<Rightarrow> delete_outcome" where
  "all_deleted i = DeleteReturned"

definition stopped_scheduler :: DockerScheduler where
  "stopped_scheduler = shutdown all_deleted (init_scheduler 2 4 900 1200 0)"

definition stopped_bridge :: bridged where
  "stopped_bridge = \<lparr>core = stopped_scheduler, pending_gets = 0\<rparr>"

definition sample_bridge :: bridged where
  "sample_bridge = \<lparr>core = sample_scheduler, pending_gets = 0\<rparr>"

definition always_api_error :: "nat \<Rightarrow> round" where
  "always_api_error k = ApiError"

definition always_still_there :: "nat \<Rightarrow> round" where
  "always_still_there k = StillThere"

definition gone :: "nat \<Rightarrow> round" where
  "gone k = NotFound"

definition gives_up :: "nat \<Rightarrow> round" where
  "gives_up k = Unexpected"

definition stuck_provisioner :: provisioner where
  "stuck_provisioner =
     \<lparr>manager_ok = True, rounds = (\<lambda>e. if e = ''env-b'' then always_api_error else gone)\<rparr>"

definition prompt_provisioner :: provisioner where
  "prompt_provisioner = \<lparr>manager_ok = True, rounds = (\<lambda>e. gone)\<rparr>"

definition faulty_provisioner :: provisioner where
  "faulty_provisioner = \<lparr>manager_ok = True, rounds = (\<lambda>e. gives_up)\<rparr>"

definition unconfigured_provisioner :: provisioner where
  "unconfigured_provisioner = \<lparr>manager_ok = False, rounds = (\<lambda>e. gone)\<rparr>"

subsection \<open>The HTTP handler in front of \<open>release_instance\<close>\<close>

text \<open>
  \<open>release_instance_handler\<close> answers 400 without calling the scheduler unless both
  fields of the request are present and non-empty. The number is the HTTP status.
\<close>

definition release_instance_handler ::
  "string option \<Rightarrow> string option \<Rightarrow> delete_outcome \<Rightarrow> DockerScheduler \<Rightarrow> DockerScheduler \<times> nat" where
  "release_instance_handler iid cid out s =
     (if \<not> truthy iid \<or> \<not> truthy cid then (s, 400)
      else case release_instance (the iid) cid out s of
             (s', True) \<Rightarrow> (s', 200)
           | (s', False) \<Rightarrow> (s', 400))"

subsection \<open>The scheduler as a system of coroutines\<close>

text \<open>
  The scheduler's coroutines run on one event loop and interleave only where one of them
  awaits something that is not ready. A state of the system is the scheduler object, the
  position of the pool manager, and the coroutines in flight, each at the await (or call)
  where it will resume. An event runs one coroutine from there to its next stop. The code
  of an event is one of the segments defined above; a segment with two status writes is
  cut in two, so that every write is seen.
\<close>

datatype pm_state = PM_Cycle | PM_Gather | PM_Stopped

text \<open>
  The flag of the three destroy positions says whether the \<open>_destroy_instance\<close> call was
  made by a \<open>_create_instance\<close> coroutine, which the pool manager's \<open>gather\<close> waits for.
\<close>

datatype task =
    CreatePending
  | AwaitCreateEnv string
  | AwaitTestApi string
  | DestroyCall bool string
  | AwaitDeleteEnv bool string
  | DestroyFinal bool string
  | AwaitHealth string
  | AllocGot string string
  | ShutdownGather

record system =
  sched :: DockerScheduler
  pm :: pm_state
  tasks :: "task list"

fun task_id :: "task \<Rightarrow> string option" where
  "task_id CreatePending = None"
| "task_id (AwaitCreateEnv i) = Some i"
| "task_id (AwaitTestApi i) = Some i"
| "task_id (DestroyCall c i) = Some i"
| "task_id (AwaitDeleteEnv c i) = Some i"
| "task_id (DestroyFinal c i) = Some i"
| "task_id (AwaitHealth i) = Some i"
| "task_id (AllocGot i c) = Some i"
| "task_id ShutdownGather = None"

text \<open>The coroutines the pool manager's \<open>gather\<close> is waiting for.\<close>

fun in_gather :: "task \<Rightarrow> bool" where
  "in_gather CreatePending = True"
| "in_gather (AwaitCreateEnv i) = True"
| "in_gather (AwaitTestApi i) = True"
| "in_gather (DestroyCall c i) = c"
| "in_gather (AwaitDeleteEnv c i) = c"
| "in_gather (DestroyFinal c i) = c"
| "in_gather t = False"

text \<open>
  What \<open>task.cancel()\<close> on the pool manager does to a coroutine: one that is inside
  \<open>gather\<close> and suspended gets \<open>CancelledError\<close> at its await, which no \<open>except Exception\<close>
  catches; inside \<open>_destroy_instance\<close> the \<open>finally\<close> clause still runs.
\<close>

fun cancel :: "task \<Rightarrow> task list" where
  "cancel CreatePending = []"
| "cancel (AwaitCreateEnv i) = []"
| "cancel (AwaitTestApi i) = []"
| "cancel (AwaitDeleteEnv True i) = [DestroyFinal True i]"
| "cancel t = [t]"

definition destroy_next_task :: "bool \<Rightarrow> string \<Rightarrow> destroy_next \<Rightarrow> task list" where
  "destroy_next_task c i nxt =
     (case nxt of Returned \<Rightarrow> [] | CallDelete e \<Rightarrow> [AwaitDeleteEnv c i] | ToFinally \<Rightarrow> [DestroyFinal c i])"

text \<open>
  Instance ids are \<open>inst_<time>_<8 random hex digits>\<close>; the model takes them to be new:
  not a key of the registry, not in the queue, not held by a coroutine.
\<close>

definition fresh :: "string \<Rightarrow> system \<Rightarrow> bool" where
  "fresh i s \<longleftrightarrow>
     i \<notin> fst ` set (instances (sched s)) \<and> i \<notin> set (ready_queue (sched s)) \<and>
     Some i \<notin> task_id ` set (tasks s)"

definition stale :: "int \<Rightarrow> DockerScheduler \<Rightarrow> DockerInstance \<Rightarrow> bool" where
  "stale now s r \<longleftrightarrow>
     status r = READY \<and>
     (case last_health_check r of None \<Rightarrow> True
      | Some t \<Rightarrow> now - t > health_check_interval s)"

definition health_scan :: "int \<Rightarrow> DockerScheduler \<Rightarrow> string list" where
  "health_scan now s = map fst (filter (\<lambda>kv. stale now s (snd kv)) (instances s))"

datatype event =
    PoolManagerCycle
  | CreateStart string int
  | CreateEnvReturn string create_outcome
  | TestApiReturn string bool int
  | DestroyBegin bool string
  | DeleteEnvReturn bool string delete_outcome
  | DestroyFinally bool string
  | GatherDone
  | HealthScan int
  | HealthReturn string probe int
  | AllocDequeue string
  | AllocResume string string int
  | ReleaseRequest "string option" "string option"
  | ShutdownBegin
  | ShutdownDestroyAll

text \<open>\<open>fire e s\<close> is the state after event \<open>e\<close>, or \<open>None\<close> when \<open>e\<close> cannot happen in \<open>s\<close>.\<close>

fun fire :: "event \<Rightarrow> system \<Rightarrow> system option" where
  "fire PoolManagerCycle s =
     (if pm s = PM_Cycle \<and> running (sched s)
      then if actual_needed (sched s) > 0
           then Some (s\<lparr>pm := PM_Gather,
                        tasks := tasks s @ replicate (launched (sched s)) CreatePending\<rparr>)
           else Some s
      else None)"
| "fire (CreateStart i now) s =
     (if CreatePending \<in> set (tasks s) \<and> fresh i s
      then Some (s\<lparr>sched := create_instance_begin i now (sched s),
                   tasks := remove1 CreatePending (tasks s) @ [AwaitCreateEnv i]\<rparr>)
      else None)"
| "fire (CreateEnvReturn i res) s =
     (if AwaitCreateEnv i \<in> set (tasks s)
      then case create_env_returned i res (sched s) of
             (s', go) \<Rightarrow>
               Some (s\<lparr>sched := s',
                       tasks := remove1 (AwaitCreateEnv i) (tasks s)
                                @ [if go then AwaitTestApi i else DestroyCall True i]\<rparr>)
      else None)"
| "fire (TestApiReturn i ok now) s =
     (if AwaitTestApi i \<in> set (tasks s)
      then case test_api_returned i ok now (sched s) of
             (s', done) \<Rightarrow>
               Some (s\<lparr>sched := s',
                       tasks := remove1 (AwaitTestApi i) (tasks s)
                                @ (if done then [] else [DestroyCall True i])\<rparr>)
      else None)"
| "fire (DestroyBegin c i) s =
     (if DestroyCall c i \<in> set (tasks s)
      then case destroy_begin i (sched s) of
             (s', nxt) \<Rightarrow>
               Some (s\<lparr>sched := s',
                       tasks := remove1 (DestroyCall c i) (tasks s) @ destroy_next_task c i nxt\<rparr>)
      else None)"
| "fire (DeleteEnvReturn c i out) s =
     (if AwaitDeleteEnv c i \<in> set (tasks s)
      then Some (s\<lparr>tasks := remove1 (AwaitDeleteEnv c i) (tasks s) @ [DestroyFinal c i]\<rparr>)
      else None)"
| "fire (DestroyFinally c i) s =
     (if DestroyFinal c i \<in> set (tasks s)
      then Some (s\<lparr>sched := destroy_finally i (sched s),
                   tasks := remove1 (DestroyFinal c i) (tasks s)\<rparr>)
      else None)"
| "fire GatherDone s =
     (if pm s = PM_Gather \<and> (\<forall>t \<in> set (tasks s). \<not> in_gather t)
      then Some (s\<lparr>pm := PM_Cycle\<rparr>)
      else None)"
| "fire (HealthScan now) s =
     (if running (sched s)
      then Some (s\<lparr>tasks := tasks s @ map AwaitHealth (health_scan now (sched s))\<rparr>)
      else None)"
| "fire (HealthReturn i p now) s =
     (if AwaitHealth i \<in> set (tasks s)
      then if probe_ok p
           then Some (s\<lparr>sched := check_instance_health_returned i p now DeleteReturned (sched s),
                        tasks := remove1 (AwaitHealth i) (tasks s)\<rparr>)
           else case destroy_begin i (eject i (sched s)) of
                  (s', nxt) \<Rightarrow>
                    Some (s\<lparr>sched := s',
                            tasks := remove1 (AwaitHealth i) (tasks s)
                                     @ destroy_next_task False i nxt\<rparr>)
      else None)"
| "fire (AllocDequeue c) s =
     (case await_get (sched s) of
        (s', Got i) \<Rightarrow> Some (s\<lparr>sched := s', tasks := tasks s @ [AllocGot i c]\<rparr>)
      | (s', TimedOut) \<Rightarrow> Some s
      | (s', Raised) \<Rightarrow> Some s)"
| "fire (AllocResume i c now) s =
     (if AllocGot i c \<in> set (tasks s)
      then Some (s\<lparr>sched := fst (allocate_dequeued i c now (sched s)),
                   tasks := remove1 (AllocGot i c) (tasks s)\<rparr>)
      else None)"
| "fire (ReleaseRequest iid cid) s =
     (if \<not> truthy iid \<or> \<not> truthy cid then Some s
      else case map_of (instances (sched s)) (the iid) of
             None \<Rightarrow> Some s
           | Some inst \<Rightarrow>
               if client_id inst \<noteq> cid then Some s
               else case destroy_begin (the iid) (sched s) of
                      (s', nxt) \<Rightarrow>
                        Some (s\<lparr>sched := s',
                                tasks := tasks s @ destroy_next_task False (the iid) nxt\<rparr>))"
| "fire ShutdownBegin s =
     Some (s\<lparr>sched := (sched s)\<lparr>running := False\<rparr>, pm := PM_Stopped,
             tasks := concat (map cancel (tasks s)) @ [ShutdownGather]\<rparr>)"
| "fire ShutdownDestroyAll s =
     (if ShutdownGather \<in> set (tasks s)
      then Some (s\<lparr>tasks := remove1 ShutdownGather (tasks s)
                            @ map (DestroyCall False) (map fst (instances (sched s)))\<rparr>)
      else None)"

definition initial :: "int \<Rightarrow> int \<Rightarrow> int \<Rightarrow> int \<Rightarrow> int \<Rightarrow> system" where
  "initial ps mx tmo hci now =
     \<lparr>sched = init_scheduler ps mx tmo hci now, pm = PM_Cycle, tasks = []\<rparr>"

inductive reachable :: "system \<Rightarrow> bool" where
  init: "reachable (initial ps mx tmo hci now)"
| step: "reachable s \<Longrightarrow> fire e s = Some s' \<Longrightarrow> reachable s'"

fun run :: "event list \<Rightarrow> system \<Rightarrow> system option" where
  "run [] s = Some s"
| "run (e # es) s = (case fire e s of None \<Rightarrow> None | Some s' \<Rightarrow> run es s')"


subsection \<open>Invariants of the system\<close>

text \<open>
  \<open>stage_of\<close> gives, for a creation coroutine that is suspended, the id it is creating and
  the status its record has while it waits. \<open>proj i\<close> selects the coroutines that hold
  the id \<open>i\<close>, \<open>finishing\<close> gives the id of a \<open>_destroy_instance\<close> call that has written
  DESTROYING and not yet removed the record.
\<close>

fun stage_of :: "task \<Rightarrow> (string \<times> InstanceStatus) option" where
  "stage_of (AwaitCreateEnv i) = Some (i, CREATING)"
| "stage_of (AwaitTestApi i) = Some (i, TESTING)"
| "stage_of t = None"

definition proj :: "string \<Rightarrow> task list \<Rightarrow> task list" where
  "proj i ts = filter (\<lambda>t. task_id t = Some i) ts"



definition inv_pm :: "system \<Rightarrow> bool" where
  "inv_pm s \<longleftrightarrow>
     (pm s \<noteq> PM_Gather \<longrightarrow> (\<forall>t \<in> set (tasks s). t \<noteq> CreatePending \<and> stage_of t = None)) \<and>
     (ShutdownGather \<in> set (tasks s) \<longrightarrow> pm s = PM_Stopped)"

definition inv_cap :: "system \<Rightarrow> bool" where
  "inv_cap s \<longleftrightarrow>
     int (length (instances (sched s))) + int (count_list (tasks s) CreatePending)
       \<le> max 0 (max_pool_size (sched s))"

text \<open>
  The pool manager is between two cycles only when no coroutine of its last \<open>gather\<close> is
  left.
\<close>

definition inv_gather :: "system \<Rightarrow> bool" where
  "inv_gather s \<longleftrightarrow> (pm s = PM_Cycle \<longrightarrow> (\<forall>t \<in> set (tasks s). \<not> in_gather t))"



subsection \<open>Status transitions\<close>



definition moves_along ::
  "(InstanceStatus \<Rightarrow> InstanceStatus \<Rightarrow> bool) \<Rightarrow> InstanceStatus option \<Rightarrow> InstanceStatus option \<Rightarrow> bool" where
  "moves_along edge before after =
     (case before of
        None \<Rightarrow> True
      | Some a \<Rightarrow> (case after of None \<Rightarrow> a = DESTROYING | Some b \<Rightarrow> b = a \<or> edge a b))"

subsection \<open>Sample runs\<close>

definition startup :: system where
  "startup = initial 2 4 900 1200 0"

definition one_created :: system where
  "one_created = the (run [PoolManagerCycle, CreateStart ''i1'' 1] startup)"



section \<open>Properties\<close>

subsection \<open>Registry lemmas\<close>

lemma map_of_map_entry:
  "map_of (AList.map_entry k f al) k' =
     (if k' = k then map_option f (map_of al k) else map_of al k')"
  by (induction al) auto

lemma keys_map_entry: "map fst (AList.map_entry k f al) = map fst al"
  by (induction al) auto

lemma delete_map_entry: "AList.delete k (AList.map_entry k f al) = AList.delete k al"
  by (induction al) (auto simp: AList.delete_eq)

lemma map_of_in_keys: "map_of al k = Some v \<Longrightarrow> k \<in> fst ` set al"
  by (metis map_of_eq_None_iff option.distinct(1))

lemma destroy_instance_absent:
  "map_of (instances s) i = None \<Longrightarrow> destroy_instance i out s = s"
  by (simp add: destroy_instance_def destroy_begin_def)

lemma destroy_instance_present:
  assumes "map_of (instances s) i = Some inst"
  shows "destroy_instance i out s =
           s\<lparr>instances := AList.delete i (instances s),
             stats := (stats s)\<lparr>total_destroyed := total_destroyed (stats s) + 1\<rparr>\<rparr>"
proof -
  have k: "i \<in> fst ` set (instances s)" using assms by (rule map_of_in_keys)
  have k': "i \<in> fst ` set (AList.map_entry i (\<lambda>r. r\<lparr>status := DESTROYING\<rparr>) (instances s))"
    using k keys_map_entry [of i _ "instances s"] by (metis list.set_map)
  show ?thesis
    using assms k'
    by (cases out)
       (simp_all add: destroy_instance_def destroy_begin_def destroy_finally_def
          set_status_def delete_map_entry)
qed

lemma dom_map_entry: "fst ` set (AList.map_entry k f al) = fst ` set al"
  using keys_map_entry [of k f al] by (metis list.set_map)

lemma destroy_begin_destroying:
  "map_of (instances s) i = Some inst \<Longrightarrow> status inst = DESTROYING \<Longrightarrow>
     fst (destroy_begin i s) = s"
proof -
  have "map_of al i = Some inst \<Longrightarrow> status inst = DESTROYING \<Longrightarrow>
          AList.map_entry i (\<lambda>r. r\<lparr>status := DESTROYING\<rparr>) al = al" for al
    by (induction al) (auto split: if_splits)
  then show "map_of (instances s) i = Some inst \<Longrightarrow> status inst = DESTROYING \<Longrightarrow>
     fst (destroy_begin i s) = s"
    by (simp add: destroy_begin_def set_status_def)
qed

subsection \<open>Release\<close>





subsection \<open>Destroy\<close>

lemma delete_env_retries:
  assumes "delete_env r k n = Some y"
  shows "\<exists>j \<ge> k. r j = NotFound \<or> r j = Unexpected"
proof (rule delete_env.raw_induct [OF _ assms])
  fix f :: "(nat \<Rightarrow> round) \<Rightarrow> nat \<Rightarrow> nat \<Rightarrow> unit option" and rs k' n' y'
  assume ih: "\<And>rs k n y. f rs k n = Some y \<Longrightarrow> \<exists>j \<ge> k. rs j = NotFound \<or> rs j = Unexpected"
    and eq: "(case rs k' of
        StillThere \<Rightarrow> f rs (Suc k') n'
      | NotFound \<Rightarrow> if n' + 1 \<ge> 3 then Some () else f rs (Suc k') (n' + 1)
      | ApiError \<Rightarrow> f rs (Suc k') n'
      | Unexpected \<Rightarrow> Some ()) = Some y'"
  show "\<exists>j \<ge> k'. rs j = NotFound \<or> rs j = Unexpected"
  proof (cases "rs k'")
    case StillThere
    with eq ih [of rs "Suc k'" n' y'] show ?thesis by (auto intro: Suc_leD)
  next
    case NotFound
    then show ?thesis by auto
  next
    case ApiError
    with eq ih [of rs "Suc k'" n' y'] show ?thesis by (auto intro: Suc_leD)
  next
    case Unexpected
    then show ?thesis by auto
  qed
qed

lemma delete_env_stuck: "delete_env always_api_error k n = None"
proof (cases "delete_env always_api_error k n")
  case (Some y)
  from delete_env_retries [OF this] show ?thesis by (simp add: always_api_error_def)
qed simp

lemma delete_env_gone: "delete_env gone 0 0 = Some ()"
  by (simp add: delete_env.simps [of gone 0 0] delete_env.simps [of gone "Suc 0" "Suc 0"]
      delete_env.simps [of gone "Suc (Suc 0)" "Suc (Suc 0)"] gone_def)

lemma delete_env_gives_up: "delete_env gives_up 0 0 = Some ()"
  by (simp add: delete_env.simps [of gives_up 0 0] gives_up_def)

lemma delete_env_unexpected: "rs k = Unexpected \<Longrightarrow> delete_env rs k n = Some ()"
  by (simp add: delete_env.simps [of rs k n])

lemma delete_env_retrying:
  assumes "\<forall>k. rs k = StillThere \<or> rs k = ApiError"
  shows "delete_env rs k n = None"
proof (cases "delete_env rs k n")
  case (Some y)
  from delete_env_retries [OF Some] obtain j where "rs j = NotFound \<or> rs j = Unexpected"
    by blast
  moreover from assms have "rs j = StillThere \<or> rs j = ApiError" by blast
  ultimately have False by auto
  then show ?thesis ..
qed simp

lemma destroy_begin_present:
  "map_of (instances s) i = Some inst \<Longrightarrow>
     destroy_begin i s =
       (set_status i DESTROYING s, if env_id inst \<noteq> [] then CallDelete (env_id inst) else ToFinally)"
  by (simp add: destroy_begin_def)

lemma destroy_finally_marked:
  "map_of (instances s) i = Some inst \<Longrightarrow>
     destroy_finally i (set_status i DESTROYING s) =
       s\<lparr>instances := AList.delete i (instances s),
         stats := (stats s)\<lparr>total_destroyed := total_destroyed (stats s) + 1\<rparr>\<rparr>"
  by (frule map_of_in_keys)
     (simp add: destroy_finally_def set_status_def dom_map_entry delete_map_entry)

lemma destroy_on_absent:
  "map_of (instances s) i = None \<Longrightarrow> destroy_instance_on i p s = Finished s"
  by (simp add: destroy_instance_on_def destroy_begin_def)

lemma destroy_on_finished:
  assumes "map_of (instances s) i = Some inst"
    "env_id inst = [] \<or> await_delete p (env_id inst) \<noteq> None"
  shows "destroy_instance_on i p s =
     Finished (s\<lparr>instances := AList.delete i (instances s),
         stats := (stats s)\<lparr>total_destroyed := total_destroyed (stats s) + 1\<rparr>\<rparr>)"
  using assms
  by (auto simp: destroy_instance_on_def destroy_begin_present destroy_finally_marked
      destroy_instance_present)

lemma destroy_on_suspended:
  assumes "map_of (instances s) i = Some inst" "env_id inst \<noteq> []"
    "await_delete p (env_id inst) = None"
  shows "destroy_instance_on i p s = Suspended (set_status i DESTROYING s)"
  using assms by (simp add: destroy_instance_on_def destroy_begin_present)

lemma destroy_on_twice:
  assumes "destroy_instance_on i p s = Finished s1"
  shows "destroy_instance_on i p2 s1 = Finished s1"
proof (cases "map_of (instances s) i")
  case None
  with assms have "s1 = s" by (simp add: destroy_on_absent)
  with None show ?thesis by (simp add: destroy_on_absent)
next
  case (Some inst)
  have "env_id inst = [] \<or> await_delete p (env_id inst) \<noteq> None"
  proof (rule ccontr)
    assume "\<not> (env_id inst = [] \<or> await_delete p (env_id inst) \<noteq> None)"
    then have "destroy_instance_on i p s = Suspended (set_status i DESTROYING s)"
      using Some by (intro destroy_on_suspended) auto
    with assms show False by simp
  qed
  from destroy_on_finished [OF Some this] assms
  have "map_of (instances s1) i = None" by (auto simp: AList.delete_conv')
  then show ?thesis by (rule destroy_on_absent)
qed

lemma destroy_overlapping_finally:
  "destroy_finally i (destroy_finally i (fst (destroy_begin i (fst (destroy_begin i s)))))
     = destroy_finally i (fst (destroy_begin i s))"
proof (cases "map_of (instances s) i")
  case None
  then have "i \<notin> fst ` set (instances s)" by (simp add: map_of_eq_None_iff)
  with None show ?thesis by (simp add: destroy_begin_def destroy_finally_def)
next
  case (Some inst)
  have k: "i \<in> fst ` set (instances s)" using Some by (rule map_of_in_keys)
  show ?thesis
    using Some k
    by (simp add: destroy_begin_def destroy_finally_def set_status_def map_of_map_entry
        delete_map_entry AList.delete_notin_dom dom_map_entry)
qed

text \<open>
  C7, as stated: for every id present in the registry \<open>destroy\<close> removes the record and
  increments \<open>total_destroyed\<close> even when the provisioner-side delete fails. With a
  provisioner that answers every delete of \<open>env-b\<close> with an API error, \<open>delete_env\<close>
  retries without end: the call stays at its await, the record stays in the registry as
  DESTROYING, and \<open>total_destroyed\<close> is what it was.
\<close>

theorem destroy_stuck_counterexample:
  "map_of (instances sample_scheduler) ''b'' = Some (sample_instance ''b'' ''env-b'' READY None) \<and>
   env_id (sample_instance ''b'' ''env-b'' READY None) = ''env-b'' \<and>
   rounds stuck_provisioner ''env-b'' = always_api_error \<and>
   await_delete stuck_provisioner ''env-b'' = None \<and>
   destroy_instance_on ''b'' stuck_provisioner sample_scheduler
     = Suspended (set_status ''b'' DESTROYING sample_scheduler) \<and>
   status_of (set_status ''b'' DESTROYING sample_scheduler) ''b'' = Some DESTROYING \<and>
   total_destroyed (stats (set_status ''b'' DESTROYING sample_scheduler))
     = total_destroyed (stats sample_scheduler)"
proof -
  have b: "map_of (instances sample_scheduler) ''b'' = Some (sample_instance ''b'' ''env-b'' READY None)"
    by (simp add: sample_scheduler_def)
  have e: "env_id (sample_instance ''b'' ''env-b'' READY None) = ''env-b''"
    by (simp add: sample_instance_def)
  have q: "rounds stuck_provisioner ''env-b'' = always_api_error"
    by (simp add: stuck_provisioner_def)
  have w: "await_delete stuck_provisioner ''env-b'' = None"
    by (simp add: await_delete_def stuck_provisioner_def delete_env_stuck)
  have r: "destroy_instance_on ''b'' stuck_provisioner sample_scheduler
     = Suspended (set_status ''b'' DESTROYING sample_scheduler)"
    using e w by (intro destroy_on_suspended [OF b]) simp_all
  have st: "status_of (set_status ''b'' DESTROYING sample_scheduler) ''b'' = Some DESTROYING"
    by (simp add: status_of_def set_status_def sample_scheduler_def)
  show ?thesis using b e q w r st by (simp add: set_status_def)
qed

text \<open>
  C7, amended. \<open>destroy(id)\<close> is idempotent: on an id that is not in the registry it
  changes nothing, on a record that is already DESTROYING the start of a second call
  changes nothing, a call after a finished one changes nothing, and two overlapping calls
  leave what one leaves. For every id present in the registry it marks the record DESTROYING
  and, when the record has an \<open>env_id\<close>, calls the provisioner's delete for that
  \<open>env_id\<close> (every call does, so the delete is attempted at least once). When the record
  has no \<open>env_id\<close>, or once the awaited delete has come back, by returning (also when
  \<open>delete_env\<close> gave up on an unexpected error) or by raising, the record is removed from
  the registry and \<open>total_destroyed\<close> is incremented. While the delete has not come back
  (\<open>delete_env\<close> retries for as long as the provisioner reports the environment as still
  there or answers with an API error), the record stays in the registry as DESTROYING and
  is not counted.
\<close>

theorem destroy_instance_on_spec:
  "(map_of (instances s) i = None \<longrightarrow> destroy_instance_on i p s = Finished s) \<and>
   (\<forall>inst. map_of (instances s) i = Some inst \<longrightarrow>
      destroy_begin i s =
        (set_status i DESTROYING s,
         if env_id inst \<noteq> [] then CallDelete (env_id inst) else ToFinally) \<and>
      (env_id inst = [] \<or> await_delete p (env_id inst) \<noteq> None \<longrightarrow>
         destroy_instance_on i p s =
           Finished (s\<lparr>instances := AList.delete i (instances s),
             stats := (stats s)\<lparr>total_destroyed := total_destroyed (stats s) + 1\<rparr>\<rparr>)) \<and>
      (env_id inst \<noteq> [] \<and> await_delete p (env_id inst) = None \<longrightarrow>
         destroy_instance_on i p s = Suspended (set_status i DESTROYING s)) \<and>
      (status inst = DESTROYING \<longrightarrow> fst (destroy_begin i s) = s)) \<and>
   (\<not> manager_ok p \<longrightarrow> await_delete p e = Some DeleteRaised) \<and>
   (manager_ok p \<and> rounds p e 0 = Unexpected \<longrightarrow> await_delete p e = Some DeleteReturned) \<and>
   (manager_ok p \<and> (\<forall>k. rounds p e k = StillThere \<or> rounds p e k = ApiError) \<longrightarrow>
      await_delete p e = None) \<and>
   (\<forall>s1. destroy_instance_on i p s = Finished s1 \<longrightarrow> destroy_instance_on i p2 s1 = Finished s1) \<and>
   destroy_finally i (destroy_finally i (fst (destroy_begin i (fst (destroy_begin i s)))))
     = destroy_finally i (fst (destroy_begin i s))"
proof -
  have a: "\<not> manager_ok p \<longrightarrow> await_delete p e = Some DeleteRaised"
    by (simp add: await_delete_def)
  have b: "manager_ok p \<and> rounds p e 0 = Unexpected \<longrightarrow> await_delete p e = Some DeleteReturned"
    by (simp add: await_delete_def delete_env_unexpected)
  have c: "manager_ok p \<and> (\<forall>k. rounds p e k = StillThere \<or> rounds p e k = ApiError) \<longrightarrow>
      await_delete p e = None"
    by (simp add: await_delete_def delete_env_retrying)
  have d: "map_of (instances s) i = None \<longrightarrow> destroy_instance_on i p s = Finished s"
    by (simp add: destroy_on_absent)
  have e: "\<forall>inst. map_of (instances s) i = Some inst \<longrightarrow>
      destroy_begin i s =
        (set_status i DESTROYING s,
         if env_id inst \<noteq> [] then CallDelete (env_id inst) else ToFinally) \<and>
      (env_id inst = [] \<or> await_delete p (env_id inst) \<noteq> None \<longrightarrow>
         destroy_instance_on i p s =
           Finished (s\<lparr>instances := AList.delete i (instances s),
             stats := (stats s)\<lparr>total_destroyed := total_destroyed (stats s) + 1\<rparr>\<rparr>)) \<and>
      (env_id inst \<noteq> [] \<and> await_delete p (env_id inst) = None \<longrightarrow>
         destroy_instance_on i p s = Suspended (set_status i DESTROYING s)) \<and>
      (status inst = DESTROYING \<longrightarrow> fst (destroy_begin i s) = s)"
    using destroy_begin_present [of s i] destroy_on_finished [of s i _ p]
      destroy_on_suspended [of s i _ p] destroy_begin_destroying [of s i]
    by blast
  have g: "\<forall>s1. destroy_instance_on i p s = Finished s1 \<longrightarrow>
      destroy_instance_on i p2 s1 = Finished s1"
    using destroy_on_twice by blast
  show ?thesis
    using a b c d e g destroy_overlapping_finally [of i s] by blast
qed

theorem destroy_instance_on_spec_witness:
  "map_of (instances sample_scheduler) ''zz'' = None \<and>
   destroy_instance_on ''zz'' stuck_provisioner sample_scheduler = Finished sample_scheduler \<and>
   map_of (instances sample_scheduler) ''b'' = Some (sample_instance ''b'' ''env-b'' READY None) \<and>
   snd (destroy_begin ''b'' sample_scheduler) = CallDelete ''env-b'' \<and>
   manager_ok faulty_provisioner \<and> rounds faulty_provisioner ''env-b'' 0 = Unexpected \<and>
   await_delete faulty_provisioner ''env-b'' = Some DeleteReturned \<and>
   destroy_instance_on ''b'' faulty_provisioner sample_scheduler =
     Finished (sample_scheduler\<lparr>instances := AList.delete ''b'' (instances sample_scheduler),
       stats := (stats sample_scheduler)
         \<lparr>total_destroyed := total_destroyed (stats sample_scheduler) + 1\<rparr>\<rparr>) \<and>
   destroy_instance_on ''b'' prompt_provisioner
     (sample_scheduler\<lparr>instances := AList.delete ''b'' (instances sample_scheduler),
       stats := (stats sample_scheduler)
         \<lparr>total_destroyed := total_destroyed (stats sample_scheduler) + 1\<rparr>\<rparr>) =
     Finished (sample_scheduler\<lparr>instances := AList.delete ''b'' (instances sample_scheduler),
       stats := (stats sample_scheduler)
         \<lparr>total_destroyed := total_destroyed (stats sample_scheduler) + 1\<rparr>\<rparr>) \<and>
   \<not> manager_ok unconfigured_provisioner \<and>
   await_delete unconfigured_provisioner ''env-b'' = Some DeleteRaised \<and>
   destroy_instance_on ''b'' unconfigured_provisioner sample_scheduler =
     Finished (sample_scheduler\<lparr>instances := AList.delete ''b'' (instances sample_scheduler),
       stats := (stats sample_scheduler)
         \<lparr>total_destroyed := total_destroyed (stats sample_scheduler) + 1\<rparr>\<rparr>) \<and>
   manager_ok stuck_provisioner \<and>
   (\<forall>k. rounds stuck_provisioner ''env-b'' k = StillThere \<or>
        rounds stuck_provisioner ''env-b'' k = ApiError) \<and>
   await_delete stuck_provisioner ''env-b'' = None \<and>
   destroy_instance_on ''b'' stuck_provisioner sample_scheduler
     = Suspended (set_status ''b'' DESTROYING sample_scheduler) \<and>
   map_of (instances (set_status ''b'' DESTROYING sample_scheduler)) ''b''
     = Some (sample_instance ''b'' ''env-b'' DESTROYING None) \<and>
   fst (destroy_begin ''b'' (set_status ''b'' DESTROYING sample_scheduler))
     = set_status ''b'' DESTROYING sample_scheduler \<and>
   map_of (instances sample_scheduler) ''a''
     = Some (sample_instance ''a'' ''env-a'' ALLOCATED (Some ''w1'')) \<and>
   await_delete stuck_provisioner ''env-a'' = Some DeleteReturned \<and>
   destroy_instance_on ''a'' stuck_provisioner sample_scheduler =
     Finished (sample_scheduler\<lparr>instances := AList.delete ''a'' (instances sample_scheduler),
       stats := (stats sample_scheduler)
         \<lparr>total_destroyed := total_destroyed (stats sample_scheduler) + 1\<rparr>\<rparr>) \<and>
   map_of (instances sample_scheduler) ''c'' = Some (sample_instance ''c'' [] CREATING None) \<and>
   destroy_instance_on ''c'' stuck_provisioner sample_scheduler =
     Finished (sample_scheduler\<lparr>instances := AList.delete ''c'' (instances sample_scheduler),
       stats := (stats sample_scheduler)
         \<lparr>total_destroyed := total_destroyed (stats sample_scheduler) + 1\<rparr>\<rparr>)"
proof -
  let ?s = sample_scheduler
  let ?m = "set_status ''b'' DESTROYING sample_scheduler"
  let ?a = "sample_instance ''a'' ''env-a'' ALLOCATED (Some ''w1'')"
  let ?b = "sample_instance ''b'' ''env-b'' READY None"
  have z: "map_of (instances ?s) ''zz'' = None" by (simp add: sample_scheduler_def)
  have a: "map_of (instances ?s) ''a'' = Some ?a" by (simp add: sample_scheduler_def)
  have b: "map_of (instances ?s) ''b'' = Some ?b" by (simp add: sample_scheduler_def)
  have c: "map_of (instances ?s) ''c'' = Some (sample_instance ''c'' [] CREATING None)"
    by (simp add: sample_scheduler_def)
  have m: "map_of (instances ?m) ''b'' = Some (sample_instance ''b'' ''env-b'' DESTROYING None)"
    by (simp add: set_status_def sample_scheduler_def sample_instance_def)
  have ea: "env_id ?a = ''env-a''"
    and eb: "env_id ?b = ''env-b''"
    and ec: "env_id (sample_instance ''c'' [] CREATING None) = []"
    and sm: "status (sample_instance ''b'' ''env-b'' DESTROYING None) = DESTROYING"
    by (simp_all add: sample_instance_def)
  have f: "manager_ok faulty_provisioner" "rounds faulty_provisioner ''env-b'' 0 = Unexpected"
    by (simp_all add: faulty_provisioner_def gives_up_def)
  have u: "\<not> manager_ok unconfigured_provisioner" by (simp add: unconfigured_provisioner_def)
  have k: "manager_ok stuck_provisioner"
    "\<forall>k. rounds stuck_provisioner ''env-b'' k = StillThere \<or>
         rounds stuck_provisioner ''env-b'' k = ApiError"
    by (simp_all add: stuck_provisioner_def always_api_error_def)
  have ka: "await_delete stuck_provisioner ''env-a'' = Some DeleteReturned"
    by (simp add: await_delete_def stuck_provisioner_def delete_env_gone)
  note tz = destroy_instance_on_spec
    [where s = ?s and i = "''zz''" and p = stuck_provisioner and ?p2.0 = prompt_provisioner
       and e = "''env-b''"]
  note tf = destroy_instance_on_spec
    [where s = ?s and i = "''b''" and p = faulty_provisioner and ?p2.0 = prompt_provisioner
       and e = "''env-b''"]
  note tu = destroy_instance_on_spec
    [where s = ?s and i = "''b''" and p = unconfigured_provisioner and ?p2.0 = prompt_provisioner
       and e = "''env-b''"]
  note tk = destroy_instance_on_spec
    [where s = ?s and i = "''b''" and p = stuck_provisioner and ?p2.0 = prompt_provisioner
       and e = "''env-b''"]
  note tm = destroy_instance_on_spec
    [where s = ?m and i = "''b''" and p = stuck_provisioner and ?p2.0 = prompt_provisioner
       and e = "''env-b''"]
  note ta = destroy_instance_on_spec
    [where s = ?s and i = "''a''" and p = stuck_provisioner and ?p2.0 = prompt_provisioner
       and e = "''env-a''"]
  note tc = destroy_instance_on_spec
    [where s = ?s and i = "''c''" and p = stuck_provisioner and ?p2.0 = prompt_provisioner
       and e = "''env-b''"]
  have r1: "destroy_instance_on ''zz'' stuck_provisioner ?s = Finished ?s" using tz z by blast
  have "destroy_begin ''b'' ?s =
      (?m, if env_id ?b \<noteq> [] then CallDelete (env_id ?b) else ToFinally)"
    using tf b by blast
  then have r2: "snd (destroy_begin ''b'' ?s) = CallDelete ''env-b''"
    by (simp add: eb)
  have r3: "await_delete faulty_provisioner ''env-b'' = Some DeleteReturned" using tf f by blast
  have r4: "destroy_instance_on ''b'' faulty_provisioner ?s =
     Finished (?s\<lparr>instances := AList.delete ''b'' (instances ?s),
       stats := (stats ?s)\<lparr>total_destroyed := total_destroyed (stats ?s) + 1\<rparr>\<rparr>)"
  proof -
    have "await_delete faulty_provisioner (env_id ?b) \<noteq> None" using r3 by (simp add: eb)
    with tf b show ?thesis by blast
  qed
  have r5: "destroy_instance_on ''b'' prompt_provisioner
     (?s\<lparr>instances := AList.delete ''b'' (instances ?s),
       stats := (stats ?s)\<lparr>total_destroyed := total_destroyed (stats ?s) + 1\<rparr>\<rparr>) =
     Finished (?s\<lparr>instances := AList.delete ''b'' (instances ?s),
       stats := (stats ?s)\<lparr>total_destroyed := total_destroyed (stats ?s) + 1\<rparr>\<rparr>)"
    using tf r4 by blast
  have r6: "await_delete unconfigured_provisioner ''env-b'' = Some DeleteRaised"
    using tu u by blast
  have r6b: "destroy_instance_on ''b'' unconfigured_provisioner ?s =
     Finished (?s\<lparr>instances := AList.delete ''b'' (instances ?s),
       stats := (stats ?s)\<lparr>total_destroyed := total_destroyed (stats ?s) + 1\<rparr>\<rparr>)"
  proof -
    have "await_delete unconfigured_provisioner (env_id ?b) \<noteq> None" using r6 by (simp add: eb)
    with tu b show ?thesis by blast
  qed
  have r7: "await_delete stuck_provisioner ''env-b'' = None" using tk k by blast
  have r8: "destroy_instance_on ''b'' stuck_provisioner ?s = Suspended ?m"
  proof -
    have "env_id ?b \<noteq> []" "await_delete stuck_provisioner (env_id ?b) = None"
      using r7 by (simp_all add: eb)
    with tk b show ?thesis by blast
  qed
  have r9: "fst (destroy_begin ''b'' ?m) = ?m" using tm m sm by blast
  have r10: "destroy_instance_on ''a'' stuck_provisioner ?s =
     Finished (?s\<lparr>instances := AList.delete ''a'' (instances ?s),
       stats := (stats ?s)\<lparr>total_destroyed := total_destroyed (stats ?s) + 1\<rparr>\<rparr>)"
  proof -
    have "await_delete stuck_provisioner (env_id ?a) \<noteq> None" using ka by (simp add: ea)
    with ta a show ?thesis by blast
  qed
  have r11: "destroy_instance_on ''c'' stuck_provisioner ?s =
     Finished (?s\<lparr>instances := AList.delete ''c'' (instances ?s),
       stats := (stats ?s)\<lparr>total_destroyed := total_destroyed (stats ?s) + 1\<rparr>\<rparr>)"
    using tc c ec by blast
  show ?thesis using z a b c m f u k ka r1 r2 r3 r4 r5 r6 r6b r7 r8 r9 r10 r11 by blast
qed

subsection \<open>Pool manager\<close>

text \<open>
  C2. In a pool-manager cycle the number of creation attempts launched is
  \<open>min(needed, capacity_room, creation_room)\<close> clamped at zero, with
  \<open>needed = pool_size - (ready_count + creating_count + testing_count)\<close>,
  \<open>capacity_room = max_pool_size - total_instances\<close> and
  \<open>creation_room = concurrent_creation_limit - (creating_count + testing_count)\<close>. At
  startup with target 2 and maximum 4 exactly two attempts are launched, and none is
  launched while the active count equals the target.
\<close>

theorem pool_manager_launch_count:
  "int (launched s) =
     max 0 (min (needed s) (min (can_create s) (concurrent_creation_limit - ongoing_creations s))) \<and>
   needed s = pool_size s - (ready_count s + creating_count s + testing_count s) \<and>
   can_create s = max_pool_size s - total_instances s \<and>
   ongoing_creations s = creating_count s + testing_count s \<and>
   launched (init_scheduler 2 4 tmo hci now) = 2 \<and>
   (total_active s = pool_size s \<longrightarrow> launched s = 0)"
proof -
  have "launched (init_scheduler 2 4 tmo hci now) = 2"
    by (simp add: launched_def actual_needed_def needed_def can_create_def
        creation_slots_available_def concurrent_creation_limit_def ongoing_creations_def
        total_active_def total_instances_def ready_count_def creating_count_def
        testing_count_def count_status_def init_scheduler_def)
  then show ?thesis
    by (auto simp: launched_def actual_needed_def needed_def can_create_def
        creation_slots_available_def total_active_def ongoing_creations_def)
qed

theorem pool_manager_launch_count_witness:
  "total_active sample_scheduler = pool_size sample_scheduler \<and> launched sample_scheduler = 0"
proof -
  have a: "total_active sample_scheduler = pool_size sample_scheduler"
    by (simp add: total_active_def ready_count_def creating_count_def testing_count_def
        count_status_def sample_scheduler_def sample_instance_def new_instance_def
        init_scheduler_def)
  show ?thesis using a pool_manager_launch_count [of sample_scheduler 0 0 0] by blast
qed

subsection \<open>Allocation\<close>

text \<open>
  C4. When \<open>allocate\<close> has dequeued an id whose record is missing from the registry or is
  not READY, it appends the id to the ready queue again and returns \<open>None\<close> (Unavailable)
  for that call; nothing else changes, and the next id in the queue is not touched, so
  there is no retry inside the call. Whenever \<open>allocate\<close> does hand out an instance, the
  record of the dequeued id was READY when it was checked.
\<close>

theorem allocate_not_ready:
  "((map_of (instances s) i = None \<or>
     (\<exists>inst. map_of (instances s) i = Some inst \<and> status inst \<noteq> READY)) \<longrightarrow>
      allocate_dequeued i c now s = (s\<lparr>ready_queue := ready_queue s @ [i]\<rparr>, None)) \<and>
   ((map_of (instances s) i = None \<or>
     (\<exists>inst. map_of (instances s) i = Some inst \<and> status inst \<noteq> READY)) \<and>
     ready_queue s = i # q \<longrightarrow>
      allocate_instance c now s = (s\<lparr>ready_queue := q @ [i]\<rparr>, None)) \<and>
   (\<forall>s' d. allocate_dequeued i c now s = (s', Some d) \<longrightarrow>
      status_of s i = Some READY \<and> instance_id d = instance_id (the (map_of (instances s) i))) \<and>
   (\<forall>s' d. allocate_instance c now s = (s', Some d) \<longrightarrow>
      ready_queue s \<noteq> [] \<and> status_of s (hd (ready_queue s)) = Some READY)"
  by (auto simp: allocate_dequeued_def allocate_instance_def allocate_resumed_def
      await_get_def requeue_def status_of_def split: option.splits list.splits if_splits)

theorem allocate_not_ready_witness:
  "map_of (instances sample_scheduler) ''zz'' = None \<and>
   allocate_dequeued ''zz'' ''w2'' 50 sample_scheduler
     = (sample_scheduler\<lparr>ready_queue := [''b'', ''zz'']\<rparr>, None) \<and>
   map_of (instances (sample_scheduler\<lparr>ready_queue := [''c'', ''b'']\<rparr>)) ''c''
     = Some (sample_instance ''c'' [] CREATING None) \<and>
   status (sample_instance ''c'' [] CREATING None) \<noteq> READY \<and>
   allocate_instance ''w2'' 50 (sample_scheduler\<lparr>ready_queue := [''c'', ''b'']\<rparr>)
     = (sample_scheduler\<lparr>ready_queue := [''b'', ''c'']\<rparr>, None) \<and>
   snd (allocate_dequeued ''b'' ''w2'' 50 sample_scheduler)
     = Some (sample_instance ''b'' ''env-b'' READY None
          \<lparr>status := ALLOCATED, allocated_at := Some 50, client_id := Some ''w2''\<rparr>) \<and>
   status_of sample_scheduler ''b'' = Some READY"
proof -
  let ?s2 = "sample_scheduler\<lparr>ready_queue := [''c'', ''b'']\<rparr>"
  have z: "map_of (instances sample_scheduler) ''zz'' = None"
    by (simp add: sample_scheduler_def)
  have c: "map_of (instances ?s2) ''c'' = Some (sample_instance ''c'' [] CREATING None)"
    by (simp add: sample_scheduler_def)
  have n: "status (sample_instance ''c'' [] CREATING None) \<noteq> READY"
    by (simp add: sample_instance_def)
  have q: "ready_queue ?s2 = ''c'' # [''b'']" by simp
  have q0: "ready_queue sample_scheduler = [''b'']" by (simp add: sample_scheduler_def)
  have g: "allocate_dequeued ''b'' ''w2'' 50 sample_scheduler
     = (fst (allocate_dequeued ''b'' ''w2'' 50 sample_scheduler),
        Some (sample_instance ''b'' ''env-b'' READY None
          \<lparr>status := ALLOCATED, allocated_at := Some 50, client_id := Some ''w2''\<rparr>))"
    by (simp add: allocate_dequeued_def sample_scheduler_def sample_instance_def)
  have r1: "allocate_dequeued ''zz'' ''w2'' 50 sample_scheduler
     = (sample_scheduler\<lparr>ready_queue := ready_queue sample_scheduler @ [''zz'']\<rparr>, None)"
    using allocate_not_ready [of sample_scheduler "''zz''" "''w2''" 50 "[]"] z by blast
  have r2: "allocate_instance ''w2'' 50 ?s2 = (?s2\<lparr>ready_queue := [''b''] @ [''c'']\<rparr>, None)"
    using allocate_not_ready [of ?s2 "''c''" "''w2''" 50 "[''b'']"] c n q by blast
  have r3: "status_of sample_scheduler ''b'' = Some READY"
    using allocate_not_ready [of sample_scheduler "''b''" "''w2''" 50 "[]"] g by blast
  have g2: "snd (allocate_dequeued ''b'' ''w2'' 50 sample_scheduler)
     = Some (sample_instance ''b'' ''env-b'' READY None
          \<lparr>status := ALLOCATED, allocated_at := Some 50, client_id := Some ''w2''\<rparr>)"
    using g by (metis snd_conv)
  show ?thesis using z c n r1 r2 r3 g2 q0 by simp
qed

lemma get_from_empty:
  "ready_queue (core b) = [] \<Longrightarrow> snd (get_from w l b) \<noteq> Got i"
  by (cases w; cases l) (simp_all add: get_from_def await_get_def)

lemma allocate_from_no_id:
  "\<forall>i. snd (get_from w l b) \<noteq> Got i \<Longrightarrow> snd (allocate_instance_from w l c now b) = None"
  by (cases "get_from w l b"; cases "snd (get_from w l b)")
     (auto simp: allocate_instance_from_def allocate_resumed_def)

lemma get_from_registry: "instances (core (fst (get_from w l b))) = instances (core b)"
  by (cases w; cases l)
     (simp_all add: get_from_def await_get_def split: list.splits)

lemma allocate_from_no_record:
  assumes "instances (core b) = []"
  shows "snd (allocate_instance_from w l c now b) = None"
proof -
  obtain b1 a where g: "get_from w l b = (b1, a)" by (cases "get_from w l b")
  with get_from_registry [of w l b] assms have "instances (core b1) = []" by simp
  then have "snd (allocate_resumed a c now (core b1)) = None"
    by (cases a) (simp_all add: allocate_resumed_def allocate_dequeued_def)
  with g show ?thesis
    by (auto simp: allocate_instance_from_def split: prod.splits)
qed

lemma get_from_running:
  "get_from w l (b\<lparr>core := (core b)\<lparr>running := r\<rparr>\<rparr>) =
     (case get_from w l b of (b1, a) \<Rightarrow> (b1\<lparr>core := (core b1)\<lparr>running := r\<rparr>\<rparr>, a))"
  by (cases w; cases l)
     (simp_all add: get_from_def await_get_def split: list.splits)

lemma allocate_resumed_running:
  "allocate_resumed a c now (s\<lparr>running := r\<rparr>) =
     (case allocate_resumed a c now s of (s', x) \<Rightarrow> (s'\<lparr>running := r\<rparr>, x))"
  by (cases a)
     (simp_all add: allocate_resumed_def allocate_dequeued_def requeue_def split: option.splits)

lemma allocate_from_running:
  "allocate_instance_from w l c now (b\<lparr>core := (core b)\<lparr>running := r\<rparr>\<rparr>) =
     (case allocate_instance_from w l c now b of
        (b', x) \<Rightarrow> (b'\<lparr>core := (core b')\<lparr>running := r\<rparr>\<rparr>, x))"
  by (simp add: allocate_instance_from_def get_from_running allocate_resumed_running
      split: prod.splits)

lemma allocate_from_scheduler_loop:
  "allocate_instance_from SchedulerLoop l c now b =
     (case allocate_instance c now (core b) of (s', x) \<Rightarrow> (b\<lparr>core := s'\<rparr>, x))"
  by (simp add: allocate_instance_from_def get_from_def allocate_instance_def
      split: prod.splits)

text \<open>
  What the state keeps of a timeout on another loop: with an empty queue and no get
  pending before, the next id put into the queue is taken by the get that was left behind,
  so the queue is empty again. After a closed loop's error no get is pending and the id
  stays in the queue.
\<close>

lemma orphan_get_swallows:
  assumes "ready_queue (core b) = []" "pending_gets b = 0"
  shows "orphan_get_runs
           ((fst (allocate_instance_from OtherLoop l c now b))
              \<lparr>core := requeue i (core (fst (allocate_instance_from OtherLoop l c now b)))\<rparr>)
         = (if l = Closed then b\<lparr>core := requeue i (core b)\<rparr> else b)"
  using assms
  by (cases l)
     (simp_all add: allocate_instance_from_def get_from_def allocate_resumed_def
        orphan_get_runs_def requeue_def)

text \<open>
  C5, as stated: an allocation timeout gives Unavailable, and scheduler shutdown is a
  different, fatal outcome. On a scheduler that has been shut down \<open>allocate\<close> returns the
  same \<open>None\<close> that a timeout returns, to a caller on the scheduler's loop and to a caller
  on another loop, whether the scheduler's loop still serves, is stalled or is closed.
\<close>

theorem allocate_shutdown_counterexample:
  "running stopped_scheduler = False \<and>
   allocate_instance ''w1'' 50 stopped_scheduler = (stopped_scheduler, None) \<and>
   allocate_resumed TimedOut ''w1'' 50 (init_scheduler 2 4 900 1200 0)
     = (init_scheduler 2 4 900 1200 0, None) \<and>
   running (core stopped_bridge) = False \<and>
   snd (allocate_instance_from SchedulerLoop Serving ''w1'' 50 stopped_bridge) = None \<and>
   snd (allocate_instance_from OtherLoop Serving ''w1'' 50 stopped_bridge) = None \<and>
   snd (allocate_instance_from OtherLoop Stalled ''w1'' 50 stopped_bridge) = None \<and>
   snd (allocate_instance_from OtherLoop Closed ''w1'' 50 stopped_bridge) = None \<and>
   snd (get_from OtherLoop Stalled sample_bridge) = TimedOut \<and>
   snd (allocate_instance_from OtherLoop Stalled ''w1'' 50 sample_bridge) = None"
  by (simp add: stopped_scheduler_def shutdown_def init_scheduler_def allocate_instance_def
      await_get_def allocate_resumed_def stopped_bridge_def sample_bridge_def
      allocate_instance_from_def get_from_def)

text \<open>
  C5, amended. For every \<open>allocate\<close> call, from the scheduler's loop or from another one,
  expiry of the allocation timeout yields the retryable Unavailable result (\<open>None\<close>).
  Scheduler shutdown is not surfaced as a different, fatal error: \<open>allocate\<close> never reads
  the running flag, and a call on a scheduler that has been shut down (an empty queue, an
  empty registry, or a scheduler loop that no longer serves or is closed) returns the same
  \<open>None\<close>, as does any other exception raised while waiting for an id.
\<close>

theorem allocate_unavailable:
  "(snd (get_from w l b) = TimedOut \<longrightarrow> snd (allocate_instance_from w l c now b) = None) \<and>
   (snd (get_from w l b) = Raised \<longrightarrow> snd (allocate_instance_from w l c now b) = None) \<and>
   (ready_queue (core b) = [] \<longrightarrow> snd (allocate_instance_from w l c now b) = None) \<and>
   (w = OtherLoop \<and> l \<noteq> Serving \<longrightarrow> snd (allocate_instance_from w l c now b) = None) \<and>
   (instances (core b) = [] \<longrightarrow> snd (allocate_instance_from w l c now b) = None) \<and>
   allocate_instance_from w l c now (b\<lparr>core := (core b)\<lparr>running := r\<rparr>\<rparr>) =
     (case allocate_instance_from w l c now b of
        (b', x) \<Rightarrow> (b'\<lparr>core := (core b')\<lparr>running := r\<rparr>\<rparr>, x)) \<and>
   allocate_instance_from SchedulerLoop l c now b =
     (case allocate_instance c now (core b) of (s', x) \<Rightarrow> (b\<lparr>core := s'\<rparr>, x))"
proof -
  have t: "snd (get_from w l b) = TimedOut \<longrightarrow> snd (allocate_instance_from w l c now b) = None"
    by (simp add: allocate_from_no_id)
  have x: "snd (get_from w l b) = Raised \<longrightarrow> snd (allocate_instance_from w l c now b) = None"
    by (simp add: allocate_from_no_id)
  have q: "ready_queue (core b) = [] \<longrightarrow> snd (allocate_instance_from w l c now b) = None"
    by (simp add: allocate_from_no_id get_from_empty)
  have o: "w = OtherLoop \<and> l \<noteq> Serving \<longrightarrow> snd (allocate_instance_from w l c now b) = None"
    by (cases l) (auto simp: allocate_instance_from_def get_from_def allocate_resumed_def)
  have n: "instances (core b) = [] \<longrightarrow> snd (allocate_instance_from w l c now b) = None"
    by (simp add: allocate_from_no_record)
  show ?thesis
    using t x q o n allocate_from_running allocate_from_scheduler_loop
    by blast
qed

theorem allocate_unavailable_witness:
  "snd (get_from OtherLoop Stalled sample_bridge) = TimedOut \<and>
   snd (allocate_instance_from OtherLoop Stalled ''w2'' 50 sample_bridge) = None \<and>
   snd (get_from OtherLoop Closed sample_bridge) = Raised \<and>
   snd (allocate_instance_from OtherLoop Closed ''w2'' 50 sample_bridge) = None \<and>
   ready_queue (core stopped_bridge) = [] \<and> instances (core stopped_bridge) = [] \<and>
   snd (get_from SchedulerLoop Serving stopped_bridge) = TimedOut \<and>
   snd (allocate_instance_from SchedulerLoop Serving ''w2'' 50 stopped_bridge) = None \<and>
   snd (allocate_instance_from OtherLoop Serving ''w2'' 50 stopped_bridge) = None \<and>
   snd (allocate_instance_from OtherLoop Serving ''w2'' 50
          (stopped_bridge\<lparr>core := (core stopped_bridge)\<lparr>running := True\<rparr>\<rparr>)) = None"
proof -
  have g1: "snd (get_from OtherLoop Stalled sample_bridge) = TimedOut"
    and g2: "snd (get_from OtherLoop Closed sample_bridge) = Raised"
    by (simp_all add: get_from_def)
  have q: "ready_queue (core stopped_bridge) = []"
    and n: "instances (core stopped_bridge) = []"
    by (simp_all add: stopped_bridge_def stopped_scheduler_def shutdown_def init_scheduler_def)
  have g3: "snd (get_from SchedulerLoop Serving stopped_bridge) = TimedOut"
    using q by (simp add: get_from_def await_get_def split: prod.splits)
  note t1 = allocate_unavailable [of OtherLoop Stalled sample_bridge "''w2''" 50 True]
  note t2 = allocate_unavailable [of OtherLoop Closed sample_bridge "''w2''" 50 True]
  note t3 = allocate_unavailable [of SchedulerLoop Serving stopped_bridge "''w2''" 50 True]
  note t4 = allocate_unavailable [of OtherLoop Serving stopped_bridge "''w2''" 50 True]
  have r1: "snd (allocate_instance_from OtherLoop Stalled ''w2'' 50 sample_bridge) = None"
    using t1 g1 by blast
  have r2: "snd (allocate_instance_from OtherLoop Closed ''w2'' 50 sample_bridge) = None"
    using t2 g2 by blast
  have r3: "snd (allocate_instance_from SchedulerLoop Serving ''w2'' 50 stopped_bridge) = None"
    using t3 g3 by blast
  have r4: "snd (allocate_instance_from OtherLoop Serving ''w2'' 50 stopped_bridge) = None"
    using t4 n by blast
  have "allocate_instance_from OtherLoop Serving ''w2'' 50
          (stopped_bridge\<lparr>core := (core stopped_bridge)\<lparr>running := True\<rparr>\<rparr>) =
     (case allocate_instance_from OtherLoop Serving ''w2'' 50 stopped_bridge of
        (b', x) \<Rightarrow> (b'\<lparr>core := (core b')\<lparr>running := True\<rparr>\<rparr>, x))"
    using t4 by blast
  then have r5: "snd (allocate_instance_from OtherLoop Serving ''w2'' 50
          (stopped_bridge\<lparr>core := (core stopped_bridge)\<lparr>running := True\<rparr>\<rparr>)) = None"
    using r4 by (simp add: split_beta)
  show ?thesis using g1 g2 q n g3 r1 r2 r3 r4 r5 by blast
qed

subsection \<open>Health ejection\<close>






subsection \<open>The system: invariants\<close>

lemma sched_simps:
  "instances (eject i s) = instances s"
  "max_pool_size (eject i s) = max_pool_size s"
  "instances (set_status i st s) = AList.map_entry i (\<lambda>r. r\<lparr>status := st\<rparr>) (instances s)"
  "ready_queue (set_status i st s) = ready_queue s"
  "max_pool_size (set_status i st s) = max_pool_size s"
  by (simp_all add: eject_def set_status_def)

lemma distinct_map_entry:
  "distinct (map fst (AList.map_entry k f al)) = distinct (map fst al)"
  by (simp add: keys_map_entry)




lemma cancel_plain: "t \<in> set (cancel u) \<Longrightarrow> t \<noteq> CreatePending \<and> stage_of t = None"
  by (cases u rule: cancel.cases) auto

lemma not_in_gather_plain: "\<not> in_gather t \<Longrightarrow> t \<noteq> CreatePending \<and> stage_of t = None"
  by (cases t) auto

lemma destroy_next_task_plain:
  "t \<in> set (destroy_next_task c i nxt) \<Longrightarrow>
     t \<noteq> CreatePending \<and> stage_of t = None \<and> t \<noteq> ShutdownGather \<and> task_id t = Some i"
  by (cases nxt) (auto simp: destroy_next_task_def)

lemma in_remove1D: "t \<in> set (remove1 u ts) \<Longrightarrow> t \<in> set ts"
  using set_remove1_subset [of u ts] by blast

lemma inv_pm_step:
  assumes "inv_pm s" "fire e s = Some s'"
  shows "inv_pm s'"
proof (cases e)
  case PoolManagerCycle
  with assms show ?thesis by (auto simp: inv_pm_def split: if_splits)
next
  case (CreateStart i now)
  with assms show ?thesis
    by (auto simp: inv_pm_def split: if_splits dest: in_remove1D)
next
  case (CreateEnvReturn i res)
  with assms show ?thesis
    by (fastforce simp: inv_pm_def split: if_splits prod.splits dest: in_remove1D)
next
  case (TestApiReturn i ok now)
  with assms show ?thesis
    by (fastforce simp: inv_pm_def split: if_splits prod.splits dest: in_remove1D)
next
  case (DestroyBegin c i)
  with assms show ?thesis
    by (fastforce simp: inv_pm_def split: if_splits prod.splits
        dest: in_remove1D destroy_next_task_plain)
next
  case (DeleteEnvReturn c i out)
  with assms show ?thesis
    by (fastforce simp: inv_pm_def split: if_splits dest: in_remove1D)
next
  case (DestroyFinally c i)
  with assms show ?thesis
    by (fastforce simp: inv_pm_def split: if_splits dest: in_remove1D)
next
  case GatherDone
  with assms show ?thesis
    by (auto simp: inv_pm_def split: if_splits dest: not_in_gather_plain)
next
  case (HealthScan now)
  with assms show ?thesis by (auto simp: inv_pm_def split: if_splits)
next
  case (HealthReturn i p now)
  with assms show ?thesis
    by (fastforce simp: inv_pm_def split: if_splits prod.splits
        dest: in_remove1D destroy_next_task_plain)
next
  case (AllocDequeue c)
  with assms show ?thesis
    by (auto simp: inv_pm_def await_get_def split: if_splits prod.splits list.splits)
next
  case (AllocResume i c now)
  with assms show ?thesis
    by (fastforce simp: inv_pm_def split: if_splits dest: in_remove1D)
next
  case (ReleaseRequest iid cid)
  with assms show ?thesis
    by (fastforce simp: inv_pm_def split: if_splits prod.splits option.splits
        dest: destroy_next_task_plain)
next
  case ShutdownBegin
  with assms show ?thesis by (auto simp: inv_pm_def dest: cancel_plain)
next
  case ShutdownDestroyAll
  with assms show ?thesis
    by (fastforce simp: inv_pm_def split: if_splits dest: in_remove1D)
qed

lemma count_list_remove1_same:
  "x \<in> set xs \<Longrightarrow> count_list (remove1 x xs) x = count_list xs x - 1"
  by (induction xs) auto

lemma count_list_remove1_other:
  "x \<noteq> y \<Longrightarrow> count_list (remove1 y xs) x = count_list xs x"
  by (induction xs) auto

lemma count_list_replicate_same: "count_list (replicate n x) x = n"
  by (induction n) auto

lemma count_list_pos: "x \<in> set xs \<Longrightarrow> 0 < count_list xs x"
  by (induction xs) auto

lemma count_pending_plain:
  "(\<forall>t \<in> set ts. t \<noteq> CreatePending) \<Longrightarrow> count_list ts CreatePending = 0"
  by (induction ts) auto

lemma count_pending_cancel: "count_list (concat (map cancel ts)) CreatePending = 0"
  by (rule count_pending_plain) (auto dest: cancel_plain)

lemma count_pending_destroy_next: "count_list (destroy_next_task c i nxt) CreatePending = 0"
  by (rule count_pending_plain) (auto dest: destroy_next_task_plain)

lemma length_update_le: "length (AList.update k v al) \<le> Suc (length al)"
  by (induction al) auto

lemma length_map_entry: "length (AList.map_entry k f al) = length al"
  by (induction al) auto

lemma destroy_begin_frame:
  "destroy_begin i s = (s', nxt) \<Longrightarrow>
     length (instances s') = length (instances s) \<and> max_pool_size s' = max_pool_size s \<and>
     ready_queue s' = ready_queue s"
  by (auto simp: destroy_begin_def set_status_def length_map_entry split: option.splits)

lemma allocate_dequeued_frame:
  "length (instances (fst (allocate_dequeued i c now s))) = length (instances s) \<and>
   max_pool_size (fst (allocate_dequeued i c now s)) = max_pool_size s"
  by (auto simp: allocate_dequeued_def requeue_def length_map_entry split: option.splits)

lemma inv_cap_step:
  assumes "inv_cap s" "inv_pm s" "fire e s = Some s'"
  shows "inv_cap s'"
proof (cases e)
  case PoolManagerCycle
  show ?thesis
  proof (cases "actual_needed (sched s) > 0")
    case True
    have p: "pm s = PM_Cycle" using assms(3) PoolManagerCycle by (auto split: if_splits)
    then have z: "count_list (tasks s) CreatePending = 0"
      using assms(2) by (intro count_pending_plain) (auto simp: inv_pm_def)
    have le: "actual_needed (sched s) \<le> max_pool_size (sched s) - int (length (instances (sched s)))"
      by (simp add: actual_needed_def can_create_def total_instances_def)
    have s': "s' = s\<lparr>pm := PM_Gather,
        tasks := tasks s @ replicate (launched (sched s)) CreatePending\<rparr>"
      using assms(3) PoolManagerCycle True p by (auto split: if_splits)
    show ?thesis using True z le
      by (simp add: s' inv_cap_def count_list_replicate_same launched_def)
  next
    case False
    with assms PoolManagerCycle show ?thesis by (auto split: if_splits)
  qed
next
  case (CreateStart i now)
  then have in_t: "CreatePending \<in> set (tasks s)"
    and s': "s' = s\<lparr>sched := create_instance_begin i now (sched s),
                   tasks := remove1 CreatePending (tasks s) @ [AwaitCreateEnv i]\<rparr>"
    using assms(3) by (auto split: if_splits)
  have "0 < count_list (tasks s) CreatePending" using in_t by (rule count_list_pos)
  then show ?thesis
    using assms(1) length_update_le [of i "new_instance i now" "instances (sched s)"]
    by (simp add: s' inv_cap_def create_instance_begin_def count_list_remove1_same [OF in_t])
next
  case (CreateEnvReturn i res)
  with assms show ?thesis
    by (auto simp: inv_cap_def create_env_returned_def create_fail_def length_map_entry
        count_list_remove1_other split: if_splits create_outcome.splits)
next
  case (TestApiReturn i ok now)
  with assms show ?thesis
    by (auto simp: inv_cap_def test_api_returned_def create_fail_def length_map_entry
        count_list_remove1_other split: if_splits)
next
  case (DestroyBegin c i)
  with assms show ?thesis
    by (auto simp: inv_cap_def count_list_remove1_other count_pending_destroy_next
        dest!: destroy_begin_frame split: if_splits prod.splits)
next
  case (DeleteEnvReturn c i out)
  with assms show ?thesis
    by (auto simp: inv_cap_def count_list_remove1_other split: if_splits)
next
  case (DestroyFinally c i)
  with assms show ?thesis
    using AList.length_delete_le [of i "instances (sched s)"]
    by (auto simp: inv_cap_def destroy_finally_def count_list_remove1_other split: if_splits)
next
  case GatherDone
  with assms show ?thesis by (auto simp: inv_cap_def split: if_splits)
next
  case (HealthScan now)
  have "count_list (map AwaitHealth ks) CreatePending = 0" for ks
    by (rule count_pending_plain) auto
  with assms HealthScan show ?thesis by (auto simp: inv_cap_def split: if_splits)
next
  case (HealthReturn i p now)
  with assms show ?thesis
    by (auto simp: inv_cap_def check_instance_health_returned_def length_map_entry sched_simps
        count_list_remove1_other count_pending_destroy_next
        dest!: destroy_begin_frame split: if_splits prod.splits)
next
  case (AllocDequeue c)
  with assms show ?thesis
    by (auto simp: inv_cap_def await_get_def split: if_splits prod.splits list.splits)
next
  case (AllocResume i c now)
  with assms show ?thesis
    by (auto simp: inv_cap_def allocate_dequeued_frame count_list_remove1_other split: if_splits)
next
  case (ReleaseRequest iid cid)
  with assms show ?thesis
    by (auto simp: inv_cap_def count_pending_destroy_next
        dest!: destroy_begin_frame split: if_splits prod.splits option.splits)
next
  case ShutdownBegin
  with assms show ?thesis by (auto simp: inv_cap_def count_pending_cancel)
next
  case ShutdownDestroyAll
  have "count_list (map (DestroyCall False \<circ> fst) ks) CreatePending = 0"
    for ks :: "(string \<times> DockerInstance) list"
    by (rule count_pending_plain) auto
  with assms ShutdownDestroyAll show ?thesis
    by (auto simp: inv_cap_def count_list_remove1_other split: if_splits)
qed

lemma run_reachable: "reachable s \<Longrightarrow> run es s = Some s' \<Longrightarrow> reachable s'"
  by (induction es arbitrary: s) (auto split: option.splits intro: reachable.step)

lemma reachable_pm_cap: "reachable s \<Longrightarrow> inv_pm s \<and> inv_cap s"
proof (induction rule: reachable.induct)
  case (init ps mx tmo hci now)
  show ?case
    by (simp add: inv_pm_def inv_cap_def initial_def init_scheduler_def)
next
  case (step s e s')
  then show ?case using inv_pm_step inv_cap_step by blast
qed

text \<open>
  C9. In every reachable state the registry holds at most \<open>max_pool_size\<close> records (for a
  maximum that is not negative; with a negative maximum the registry stays empty), and no
  event that makes the registry grow takes it above \<open>max_pool_size\<close>.
\<close>

theorem registry_within_max:
  "reachable s \<Longrightarrow>
     (0 \<le> max_pool_size (sched s) \<longrightarrow> total_instances (sched s) \<le> max_pool_size (sched s)) \<and>
     (\<forall>e s'. fire e s = Some s' \<and> total_instances (sched s') > total_instances (sched s) \<longrightarrow>
        total_instances (sched s') \<le> max_pool_size (sched s'))"
proof -
  assume r: "reachable s"
  have bound: "int (length (instances (sched u))) \<le> max 0 (max_pool_size (sched u))"
    if "reachable u" for u
    using reachable_pm_cap [OF that] by (simp add: inv_cap_def)
  have a: "0 \<le> max_pool_size (sched s) \<longrightarrow> total_instances (sched s) \<le> max_pool_size (sched s)"
    using bound [OF r] by (auto simp: total_instances_def max_def split: if_splits)
  have b: "total_instances (sched s') \<le> max_pool_size (sched s')"
    if "fire e s = Some s'" "total_instances (sched s') > total_instances (sched s)" for e s'
  proof -
    have "reachable s'" using r that(1) by (rule reachable.step)
    from bound [OF this] that(2) show ?thesis
      by (auto simp: total_instances_def max_def split: if_splits)
  qed
  show ?thesis using a b by blast
qed

lemma one_created_eq:
  "run [PoolManagerCycle, CreateStart ''i1'' 1] startup = Some one_created"
  by (simp add: one_created_def startup_def initial_def init_scheduler_def fresh_def
      launched_def actual_needed_def needed_def can_create_def creation_slots_available_def
      concurrent_creation_limit_def ongoing_creations_def total_active_def
      total_instances_def ready_count_def creating_count_def testing_count_def
      count_status_def create_instance_begin_def numeral_2_eq_2)

theorem registry_within_max_witness:
  "reachable one_created \<and> 0 \<le> max_pool_size (sched one_created) \<and>
   total_instances (sched one_created) \<le> max_pool_size (sched one_created) \<and>
   (\<exists>s'. fire (CreateStart ''i2'' 2) one_created = Some s' \<and>
      total_instances (sched s') > total_instances (sched one_created) \<and>
      total_instances (sched s') \<le> max_pool_size (sched s'))"
proof -
  have r: "reachable one_created"
    using run_reachable [OF reachable.init one_created_eq [unfolded startup_def]] .
  have v: "one_created = \<lparr>sched = create_instance_begin ''i1'' 1 (init_scheduler 2 4 900 1200 0),
      pm = PM_Gather, tasks = [CreatePending, AwaitCreateEnv ''i1'']\<rparr>"
    using one_created_eq
    by (simp add: startup_def initial_def init_scheduler_def fresh_def
      launched_def actual_needed_def needed_def can_create_def creation_slots_available_def
      concurrent_creation_limit_def ongoing_creations_def total_active_def
      total_instances_def ready_count_def creating_count_def testing_count_def
      count_status_def create_instance_begin_def numeral_2_eq_2)
  have m: "0 \<le> max_pool_size (sched one_created)"
    by (simp add: v create_instance_begin_def init_scheduler_def)
  obtain s' where f: "fire (CreateStart ''i2'' 2) one_created = Some s'"
    by (simp add: v fresh_def create_instance_begin_def init_scheduler_def)
  have g: "total_instances (sched s') > total_instances (sched one_created)"
    using f by (auto simp: v fresh_def create_instance_begin_def init_scheduler_def
        total_instances_def)
  note t = registry_within_max [OF r]
  show ?thesis using r m t f g by blast
qed

subsection \<open>The pool manager and its creations\<close>

lemma destroy_next_task_gather:
  "t \<in> set (destroy_next_task c i nxt) \<Longrightarrow> in_gather t = c"
  by (cases nxt) (auto simp: destroy_next_task_def)

lemma inv_gather_step:
  assumes "inv_gather s" "fire e s = Some s'"
  shows "inv_gather s'"
proof (cases e)
  case PoolManagerCycle
  with assms show ?thesis by (auto simp: inv_gather_def split: if_splits)
next
  case (CreateStart i now)
  with assms show ?thesis
    by (auto simp: inv_gather_def split: if_splits dest: in_remove1D)
next
  case (CreateEnvReturn i res)
  with assms show ?thesis
    by (fastforce simp: inv_gather_def split: if_splits prod.splits dest: in_remove1D)
next
  case (TestApiReturn i ok now)
  with assms show ?thesis
    by (fastforce simp: inv_gather_def split: if_splits prod.splits dest: in_remove1D)
next
  case (DestroyBegin c i)
  with assms show ?thesis
    by (fastforce simp: inv_gather_def split: if_splits prod.splits
        dest: in_remove1D destroy_next_task_gather)
next
  case (DeleteEnvReturn c i out)
  with assms show ?thesis
    by (fastforce simp: inv_gather_def split: if_splits dest: in_remove1D)
next
  case (DestroyFinally c i)
  with assms show ?thesis
    by (fastforce simp: inv_gather_def split: if_splits dest: in_remove1D)
next
  case GatherDone
  with assms show ?thesis
    by (auto simp: inv_gather_def split: if_splits)
next
  case (HealthScan now)
  with assms show ?thesis by (auto simp: inv_gather_def split: if_splits)
next
  case (HealthReturn i p now)
  with assms show ?thesis
    by (fastforce simp: inv_gather_def split: if_splits prod.splits
        dest: in_remove1D destroy_next_task_gather)
next
  case (AllocDequeue c)
  with assms show ?thesis
    by (auto simp: inv_gather_def await_get_def split: if_splits prod.splits list.splits)
next
  case (AllocResume i c now)
  with assms show ?thesis
    by (fastforce simp: inv_gather_def split: if_splits dest: in_remove1D)
next
  case (ReleaseRequest iid cid)
  with assms show ?thesis
    by (fastforce simp: inv_gather_def split: if_splits prod.splits option.splits
        dest: destroy_next_task_gather)
next
  case ShutdownBegin
  with assms show ?thesis by (auto simp: inv_gather_def)
next
  case ShutdownDestroyAll
  with assms show ?thesis
    by (fastforce simp: inv_gather_def split: if_splits dest: in_remove1D)
qed

lemma reachable_gather: "reachable s \<Longrightarrow> inv_gather s"
proof (induction rule: reachable.induct)
  case (init ps mx tmo hci now)
  show ?case by (simp add: inv_gather_def initial_def)
next
  case (step s e s')
  then show ?case using inv_gather_step by blast
qed

lemma one_created_value:
  "one_created = \<lparr>sched = create_instance_begin ''i1'' 1 (init_scheduler 2 4 900 1200 0),
      pm = PM_Gather, tasks = [CreatePending, AwaitCreateEnv ''i1'']\<rparr>"
  using one_created_eq
  by (simp add: startup_def initial_def init_scheduler_def fresh_def
      launched_def actual_needed_def needed_def can_create_def creation_slots_available_def
      concurrent_creation_limit_def ongoing_creations_def total_active_def
      total_instances_def ready_count_def creating_count_def testing_count_def
      count_status_def create_instance_begin_def numeral_2_eq_2)

text \<open>
  C3, on the code. The claim is that a cycle which launches creation attempts does not
  block later cycles on their completion, so that the next deficit computation can run
  before they finish. The pool manager awaits \<open>asyncio.gather\<close> on the attempts it has
  launched: in every reachable state a cycle that fires finds no coroutine of an earlier
  launch, and while there is one, neither a cycle nor the end of the \<open>gather\<close> can happen.
\<close>

theorem pool_manager_waits_for_gather:
  "reachable s \<Longrightarrow>
     (\<forall>s'. fire PoolManagerCycle s = Some s' \<longrightarrow> (\<forall>t \<in> set (tasks s). \<not> in_gather t)) \<and>
     ((\<exists>t \<in> set (tasks s). in_gather t) \<longrightarrow>
        fire PoolManagerCycle s = None \<and> fire GatherDone s = None)"
proof -
  assume "reachable s"
  then have g: "inv_gather s" by (rule reachable_gather)
  have a: "\<forall>t \<in> set (tasks s). \<not> in_gather t" if "fire PoolManagerCycle s = Some s'" for s'
    using g that by (auto simp: inv_gather_def split: if_splits)
  have b: "fire PoolManagerCycle s = None \<and> fire GatherDone s = None"
    if "\<exists>t \<in> set (tasks s). in_gather t"
    using g that by (auto simp: inv_gather_def split: if_splits)
  show ?thesis using a b by blast
qed

theorem pool_manager_waits_for_gather_witness:
  "reachable one_created \<and>
   tasks one_created = [CreatePending, AwaitCreateEnv ''i1''] \<and>
   in_gather (AwaitCreateEnv ''i1'') \<and>
   status_of (sched one_created) ''i1'' = Some CREATING \<and>
   actual_needed (sched one_created) = 1 \<and>
   fire PoolManagerCycle one_created = None \<and>
   fire GatherDone one_created = None"
proof -
  have s: "reachable startup" unfolding startup_def by (rule reachable.init)
  have r: "reachable one_created"
    using run_reachable [OF s] one_created_eq by blast
  have t: "tasks one_created = [CreatePending, AwaitCreateEnv ''i1'']"
    by (simp add: one_created_value)
  have g: "in_gather (AwaitCreateEnv ''i1'')" by simp
  have e: "\<exists>t \<in> set (tasks one_created). in_gather t" using t by simp
  have st: "status_of (sched one_created) ''i1'' = Some CREATING"
    by (simp add: one_created_value status_of_def create_instance_begin_def new_instance_def
        init_scheduler_def)
  have n: "actual_needed (sched one_created) = 1"
    by (simp add: one_created_value init_scheduler_def create_instance_begin_def
      new_instance_def actual_needed_def needed_def can_create_def creation_slots_available_def
      concurrent_creation_limit_def ongoing_creations_def total_active_def
      total_instances_def ready_count_def creating_count_def testing_count_def
      count_status_def)
  from pool_manager_waits_for_gather [OF r] e
  have f: "fire PoolManagerCycle one_created = None \<and> fire GatherDone one_created = None"
    by blast
  show ?thesis using r t g st n f by blast
qed

subsection \<open>The creation invariant\<close>

lemma proj_append [simp]: "proj i (ts @ us) = proj i ts @ proj i us"
  by (simp add: proj_def)

lemma proj_Nil [simp]: "proj i [] = []"
  by (simp add: proj_def)

lemma proj_Cons [simp]: "proj i (t # ts) = (if task_id t = Some i then t # proj i ts else proj i ts)"
  by (simp add: proj_def)

lemma in_proj [simp]: "t \<in> set (proj i ts) \<longleftrightarrow> t \<in> set ts \<and> task_id t = Some i"
  by (auto simp: proj_def)




lemma stage_task_id: "stage_of t = Some (i, st) \<Longrightarrow> task_id t = Some i"
  by (cases t) auto

lemma stage_cases:
  "stage_of t \<noteq> None \<Longrightarrow> task_id t = Some i \<Longrightarrow>
     (t = AwaitCreateEnv i \<or> t = AwaitTestApi i)"
  by (cases t) auto




lemma proj_replicate_pending [simp]: "proj i (replicate n CreatePending) = []"
  by (induction n) auto











lemma stage_cancel: "t \<in> set (concat (map cancel ts)) \<Longrightarrow> stage_of t = None"
  by (auto dest: cancel_plain)






subsection \<open>The destroying invariant\<close>
















subsection \<open>Status transitions of a record\<close>

lemma moves_same [simp]: "moves_along edge a a"
  by (simp add: moves_along_def split: option.splits)













end
